theory Spec2Isabelle
  imports Complex_Main "HOL-Library.Product_Lexorder"
begin

section \<open>JavaScript values and the coercions the server relies on\<close>

text \<open>
  The server (src/server/src/index.ts) and its middleware (transactionMiddleware) read
  untyped JSON: \<open>req.body\<close> fields may be absent, \<open>null\<close>, booleans, numbers or strings.
  A JavaScript number is an IEEE double: \<open>NaN\<close>, an infinity, or a finite double \<open>Num r\<close>
  given by its rational value \<open>r\<close> (the two zeros are not told apart; nothing the server
  does depends on the sign of zero). A body field \<open>JNumber r\<close> holds the finite double the
  JSON parser produced. Arrays, objects and numerals that overflow the doubles are outside
  the model as field values.
\<close>

datatype number = NaN | Num rat | PInf | NInf

datatype jsval = JUndefined | JNull | JBool bool | JNumber rat | JString string

text \<open>\<open>!v\<close> is \<open>\<not> ToBoolean v\<close>: the falsy values are undefined, null, false, 0 and "".\<close>

fun ToBoolean :: "jsval \<Rightarrow> bool" where
  "ToBoolean JUndefined = False"
| "ToBoolean JNull = False"
| "ToBoolean (JBool b) = b"
| "ToBoolean (JNumber r) = (r \<noteq> 0)"
| "ToBoolean (JString s) = (s \<noteq> [])"

text \<open>
  \<open>Number(v)\<close> and the implicit numeric coercion of \<open>v <= 0\<close>. What the runtime makes of
  a non-empty string (its StringToNumber) is a parameter \<open>s2n\<close>; the empty string is 0.
\<close>

fun ToNumber :: "(string \<Rightarrow> number) \<Rightarrow> jsval \<Rightarrow> number" where
  "ToNumber s2n JUndefined = NaN"
| "ToNumber s2n JNull = Num 0"
| "ToNumber s2n (JBool b) = (if b then Num 1 else Num 0)"
| "ToNumber s2n (JNumber r) = Num r"
| "ToNumber s2n (JString s) = (if s = [] then Num 0 else s2n s)"

subsection \<open>Rounding to the nearest double\<close>

text \<open>
  The result of an arithmetic operation is the exact result rounded to the nearest double,
  ties to the even significand (IEEE 754 binary64: 53 significant bits, least exponent
  \<open>-1074\<close>, overflow to an infinity from \<open>2^1024\<close> on). \<open>bit_length n\<close> is the number of binary
  digits of \<open>n\<close>, \<open>floor_log2 x\<close> the \<open>k\<close> with \<open>2^k \<le> x < 2^(k+1)\<close> for positive \<open>x\<close>.
\<close>

fun bit_length :: "nat \<Rightarrow> nat" where
  "bit_length n = (if n = 0 then 0 else Suc (bit_length (n div 2)))"

definition pow2 :: "int \<Rightarrow> rat" where
  "pow2 e = 2 powi e"

definition floor_log2 :: "rat \<Rightarrow> int" where
  "floor_log2 x =
     (if 1 \<le> x then int (bit_length (nat \<lfloor>x\<rfloor>)) - 1
      else
        (let k = int (bit_length (nat \<lfloor>1 / x\<rfloor>)) - 1
         in if pow2 (- k) \<le> x then - k else - k - 1))"

definition round_half_even :: "rat \<Rightarrow> int" where
  "round_half_even y =
     (let f = \<lfloor>y\<rfloor>; d = y - of_int f
      in if d < 1 / 2 then f else if 1 / 2 < d then f + 1 else if even f then f else f + 1)"

definition fl :: "rat \<Rightarrow> number" where
  "fl x =
     (if x = 0 then Num 0
      else
        (let e = max (floor_log2 \<bar>x\<bar> - 52) (- 1074);
             y = of_int (round_half_even (x / pow2 e)) * pow2 e
         in if 2 ^ 1024 \<le> \<bar>y\<bar> then (if 0 < x then PInf else NInf) else Num y))"

text \<open>A rational is a double when rounding leaves it as it is.\<close>

definition is_double :: "rat \<Rightarrow> bool" where
  "is_double x = (fl x = Num x)"

subsection \<open>Arithmetic and comparison\<close>

text \<open>
  \<open>+\<close>, \<open>-\<close>, \<open><\<close> and \<open><=\<close> on numbers: NaN propagates and compares false, opposite
  infinities cancel to NaN, finite results are rounded.
\<close>

fun num_add :: "number \<Rightarrow> number \<Rightarrow> number" where
  "num_add NaN _ = NaN"
| "num_add _ NaN = NaN"
| "num_add (Num a) (Num b) = fl (a + b)"
| "num_add PInf NInf = NaN"
| "num_add NInf PInf = NaN"
| "num_add PInf _ = PInf"
| "num_add _ PInf = PInf"
| "num_add NInf _ = NInf"
| "num_add _ NInf = NInf"

fun num_sub :: "number \<Rightarrow> number \<Rightarrow> number" where
  "num_sub NaN _ = NaN"
| "num_sub _ NaN = NaN"
| "num_sub (Num a) (Num b) = fl (a - b)"
| "num_sub PInf PInf = NaN"
| "num_sub NInf NInf = NaN"
| "num_sub PInf _ = PInf"
| "num_sub _ PInf = NInf"
| "num_sub NInf _ = NInf"
| "num_sub _ NInf = PInf"

fun num_lt :: "number \<Rightarrow> number \<Rightarrow> bool" where
  "num_lt NaN _ = False"
| "num_lt _ NaN = False"
| "num_lt (Num a) (Num b) = (a < b)"
| "num_lt _ NInf = False"
| "num_lt NInf _ = True"
| "num_lt PInf _ = False"
| "num_lt _ PInf = True"

fun num_le :: "number \<Rightarrow> number \<Rightarrow> bool" where
  "num_le NaN _ = False"
| "num_le _ NaN = False"
| "num_le (Num a) (Num b) = (a \<le> b)"
| "num_le NInf _ = True"
| "num_le _ PInf = True"
| "num_le _ NInf = False"
| "num_le PInf _ = False"

section \<open>Rows and HTTP responses\<close>

datatype account_type = CHECKING | SAVINGS

record account =
  acct_id :: string
  accountNumber :: string
  accountType :: account_type
  balance :: "number option"
  accountHolder :: string
  createdAt :: string

record transaction =
  txn_id :: nat
  txn_type :: jsval
  amount :: jsval
  description :: jsval
  accountId :: string
  date :: nat

record pagination =
  currentPage :: int
  limit :: int
  totalTransactions :: nat
  totalPages :: int
  hasNextPage :: bool
  hasPreviousPage :: bool

text \<open>
  The JSON bodies the routes send. \<open>ErrorJson m\<close> is \<open>{error: m}\<close>; \<open>TypedError m\<close> is
  \<open>{type: "Error", message: m}\<close>; \<open>BadRequest n m\<close> is the middleware's
  \<open>{name: n, message: m}\<close>; \<open>TransactionsJson\<close> and \<open>CreatedJson\<close> are the \<open>data\<close> of the
  two \<open>{type: "Success", ...}\<close> envelopes.
\<close>

datatype body =
    ErrorJson string
  | TypedError string
  | BadRequest string string
  | AccountsJson "account list"
  | AccountJson account
  | TransactionsJson "transaction list" pagination
  | CreatedJson jsval jsval number

record response =
  status :: nat
  json :: body

definition respond :: "nat \<Rightarrow> body \<Rightarrow> response" where
  "respond code b = \<lparr>status = code, json = b\<rparr>"

section \<open>The validation middleware\<close>

record request_body =
  type_field :: jsval
  amount_field :: jsval
  description_field :: jsval

text \<open>
  \<open>validateCreateTransaction\<close> (transactionMiddleware). The result is the response it sends,
  if any, and whether it calls \<open>next()\<close>. The condition is the source's conjunction
  \<open>!type && !amount && amount <= 0 && !description\<close>.
\<close>

definition reject_condition :: "(string \<Rightarrow> number) \<Rightarrow> request_body \<Rightarrow> bool" where
  "reject_condition s2n b =
     (\<not> ToBoolean (type_field b) \<and> \<not> ToBoolean (amount_field b)
      \<and> num_le (ToNumber s2n (amount_field b)) (Num 0)
      \<and> \<not> ToBoolean (description_field b))"

definition validateCreateTransaction ::
  "(string \<Rightarrow> number) \<Rightarrow> request_body \<Rightarrow> response option \<times> bool" where
  "validateCreateTransaction s2n b =
     (if reject_condition s2n b
      then (Some (respond 400 (BadRequest ''Bad request'' ''Incomplete transaction details.'')), True)
      else (None, True))"

section \<open>The store\<close>

text \<open>
  The two tables of \<open>initializeDatabase\<close>. \<open>balance\<close> is a REAL column: \<open>None\<close> is SQL
  NULL, \<open>Some n\<close> a double or an infinity. \<open>sqlite_sequence\<close> is the AUTOINCREMENT counter of \<open>transactions.id\<close>. The columns
  \<open>type\<close>, \<open>amount\<close> and \<open>description\<close> of a transaction keep the JavaScript value that
  was bound to the INSERT.
\<close>

record store =
  accounts :: "account list"
  transactions :: "transaction list"
  sqlite_sequence :: nat

text \<open>
  What a single request meets outside the program text: the value of CURRENT_TIMESTAMP,
  and whether the driver reports an error to the callback of \<open>db.get\<close>, \<open>db.all\<close>, the
  INSERT and the UPDATE (with \<open>err.message\<close>).
\<close>

record env =
  CURRENT_TIMESTAMP :: nat
  get_err :: bool
  all_err :: bool
  insert_err :: bool
  update_err :: bool
  err_message :: string

definition sampleAccounts :: "string \<Rightarrow> account list" where
  "sampleAccounts now_iso =
     [\<lparr>acct_id = ''1'', accountNumber = ''1001'', accountType = CHECKING,
       balance = Some (Num 5000), accountHolder = ''John Doe'', createdAt = now_iso\<rparr>,
      \<lparr>acct_id = ''2'', accountNumber = ''1002'', accountType = SAVINGS,
       balance = Some (Num 10000), accountHolder = ''Jane Smith'', createdAt = now_iso\<rparr>]"

definition initializeDatabase :: "string \<Rightarrow> store" where
  "initializeDatabase now_iso =
     \<lparr>accounts = sampleAccounts now_iso, transactions = [], sqlite_sequence = 0\<rparr>"

text \<open>\<open>SELECT ... FROM accounts WHERE id = ?\<close> (id is the primary key).\<close>

definition select_account :: "store \<Rightarrow> string \<Rightarrow> account option" where
  "select_account s i = find (\<lambda>a. acct_id a = i) (accounts s)"

text \<open>
  The column constraint \<open>CHECK(type IN ("DEPOSIT", "WITHDRAWAL", "TRANSFER"))\<close>. A CHECK
  fails only when its expression is false: for NULL (a bound \<open>null\<close> or \<open>undefined\<close>) the
  expression is NULL and the row is accepted. A number or boolean is stored as its text,
  which is none of the three.
\<close>

fun check_type :: "jsval \<Rightarrow> bool" where
  "check_type JUndefined = True"
| "check_type JNull = True"
| "check_type (JString s) = (s = ''DEPOSIT'' \<or> s = ''WITHDRAWAL'' \<or> s = ''TRANSFER'')"
| "check_type (JBool b) = False"
| "check_type (JNumber r) = False"

text \<open>\<open>transactionsInsertQuery\<close>: \<open>None\<close> is an error passed to the callback.\<close>

definition transactionsInsertQuery ::
  "env \<Rightarrow> store \<Rightarrow> jsval \<Rightarrow> jsval \<Rightarrow> jsval \<Rightarrow> string \<Rightarrow> store option" where
  "transactionsInsertQuery e s ty am de i =
     (if check_type ty \<and> \<not> insert_err e
      then Some (s\<lparr>transactions := transactions s @
                    [\<lparr>txn_id = Suc (sqlite_sequence s), txn_type = ty, amount = am,
                      description = de, accountId = i, date = CURRENT_TIMESTAMP e\<rparr>],
                  sqlite_sequence := Suc (sqlite_sequence s)\<rparr>)
      else None)"

text \<open>
  A number bound to a REAL column: SQLite stores NaN as NULL. \<open>column_number\<close> is
  \<open>Number(account.balance)\<close> on the value read back: NULL reads as \<open>null\<close>, whose number is 0.
\<close>

fun bind_number :: "number \<Rightarrow> number option" where
  "bind_number NaN = None"
| "bind_number n = Some n"

fun column_number :: "number option \<Rightarrow> number" where
  "column_number None = Num 0"
| "column_number (Some n) = n"

text \<open>\<open>updateBalanceQuery\<close>: \<open>UPDATE accounts SET balance = ? WHERE id = ?\<close>.\<close>

definition updateBalanceQuery :: "env \<Rightarrow> store \<Rightarrow> number \<Rightarrow> string \<Rightarrow> store option" where
  "updateBalanceQuery e s nb i =
     (if update_err e then None
      else Some (s\<lparr>accounts :=
                    map (\<lambda>a. if acct_id a = i then a\<lparr>balance := bind_number nb\<rparr> else a)
                      (accounts s)\<rparr>))"

section \<open>POST /api/accounts/:id/transactions\<close>

text \<open>
  The balance the handler computes: \<open>Number(account.balance)\<close>, plus \<open>Number(amount)\<close> when
  \<open>type === "DEPOSIT"\<close>, minus it otherwise.
\<close>

definition newBalance ::
  "(string \<Rightarrow> number) \<Rightarrow> number option \<Rightarrow> jsval \<Rightarrow> jsval \<Rightarrow> number" where
  "newBalance s2n bal ty am =
     (if ty = JString ''DEPOSIT''
      then num_add (column_number bal) (ToNumber s2n am)
      else num_sub (column_number bal) (ToNumber s2n am))"

text \<open>
  The route's handler: the response it sends and the store it leaves. Each \<open>return\<close> of the
  nested callbacks is a branch. The surrounding \<open>try\<close> only guards the two destructuring
  assignments, which cannot throw on a body that is an object.
\<close>

definition create_transaction ::
  "(string \<Rightarrow> number) \<Rightarrow> env \<Rightarrow> store \<Rightarrow> string \<Rightarrow> request_body \<Rightarrow> response \<times> store" where
  "create_transaction s2n e s i b =
     (if get_err e then (respond 500 (TypedError ''Failed to fetch account details.''), s)
      else
        (case select_account s i of
          None \<Rightarrow> (respond 404 (TypedError ''Account not found.''), s)
        | Some acct \<Rightarrow>
            (let nb = newBalance s2n (balance acct) (type_field b) (amount_field b) in
              (if num_lt nb (Num 0)
               then (respond 400 (TypedError ''Insufficient funds for this transaction.''), s)
               else
                 (case transactionsInsertQuery e s (type_field b) (amount_field b)
                         (description_field b) i of
                   None \<Rightarrow> (respond 500 (TypedError ''Failed to create transaction.''), s)
                 | Some s1 \<Rightarrow>
                     (case updateBalanceQuery e s1 nb i of
                       None \<Rightarrow>
                         (respond 500
                            (TypedError ''Transaction created but failed to update balance.''),
                          s1)
                     | Some s2 \<Rightarrow>
                         (respond 201 (CreatedJson (type_field b) (amount_field b) nb),
                          s2)))))))"

text \<open>
  The route: the middleware, then (since it calls \<open>next()\<close>) the handler. The result lists
  every response passed to \<open>res.json\<close>, in order; the client receives the first one
  (what a second one does to the process is modelled by \<open>serve\<close> below).
\<close>

definition post_account_transactions ::
  "(string \<Rightarrow> number) \<Rightarrow> env \<Rightarrow> store \<Rightarrow> string \<Rightarrow> request_body \<Rightarrow> response list \<times> store" where
  "post_account_transactions s2n e s i b =
     (case validateCreateTransaction s2n b of
        (sent, nxt) \<Rightarrow>
          if nxt
          then (case create_transaction s2n e s i b of
                  (r, s') \<Rightarrow> (case_option [] (\<lambda>x. [x]) sent @ [r], s'))
          else (case_option [] (\<lambda>x. [x]) sent, s))"

definition delivered :: "response list \<Rightarrow> response option" where
  "delivered rs = (case rs of [] \<Rightarrow> None | r # _ \<Rightarrow> Some r)"

section \<open>GET /api/accounts and GET /api/accounts/:id\<close>

definition get_accounts :: "env \<Rightarrow> store \<Rightarrow> response" where
  "get_accounts e s =
     (if all_err e then respond 500 (ErrorJson (err_message e))
      else respond 200 (AccountsJson (accounts s)))"

definition get_account :: "env \<Rightarrow> store \<Rightarrow> string \<Rightarrow> response" where
  "get_account e s i =
     (if get_err e then respond 500 (ErrorJson (err_message e))
      else
        (case select_account s i of
          None \<Rightarrow> respond 404 (ErrorJson ''Account not found'')
        | Some row \<Rightarrow> respond 200 (AccountJson row)))"

section \<open>GET /api/accounts/:id/transactions\<close>

text \<open>
  \<open>parseInt\<close> of a query parameter given once (a string) or not at all (\<open>undefined\<close>):
  leading white space is skipped, then an optional sign, then an optional \<open>0x\<close> prefix
  selecting radix 16, then the longest run of digits. No digit gives NaN, here \<open>None\<close>.
  The strings of the model are ASCII (other Unicode white space does not occur), and the
  integers are exact: beyond \<open>2^53\<close> the result of \<open>parseInt\<close> is rounded, and any such page or
  limit is refused for exceeding 100 either way.
\<close>

definition is_whitespace :: "char \<Rightarrow> bool" where
  "is_whitespace c = (c \<in> set [CHR 0x09, CHR 0x0A, CHR 0x0B, CHR 0x0C, CHR 0x0D, CHR 0x20])"

definition digit_value :: "nat \<Rightarrow> char \<Rightarrow> nat option" where
  "digit_value radix c =
     (let n = (of_char c :: nat);
          v = (if 48 \<le> n \<and> n \<le> 57 then Some (n - 48)
               else if 97 \<le> n \<and> n \<le> 122 then Some (n - 87)
               else if 65 \<le> n \<and> n \<le> 90 then Some (n - 55)
               else None)
      in (case v of None \<Rightarrow> None | Some d \<Rightarrow> if d < radix then Some d else None))"

fun parse_digits :: "nat \<Rightarrow> string \<Rightarrow> nat option \<Rightarrow> nat option" where
  "parse_digits radix [] acc = acc"
| "parse_digits radix (c # cs) acc =
     (case digit_value radix c of
        None \<Rightarrow> acc
      | Some d \<Rightarrow>
          parse_digits radix cs (Some (radix * (case acc of None \<Rightarrow> 0 | Some a \<Rightarrow> a) + d)))"

definition strip_sign :: "string \<Rightarrow> int \<times> string" where
  "strip_sign str =
     (case str of
        [] \<Rightarrow> (1, [])
      | c # cs \<Rightarrow>
          if c = CHR ''-'' then (- 1, cs) else if c = CHR ''+'' then (1, cs) else (1, str))"

definition strip_prefix :: "string \<Rightarrow> nat \<times> string" where
  "strip_prefix str =
     (case str of
        a # b # cs \<Rightarrow>
          if a = CHR ''0'' \<and> (b = CHR ''x'' \<or> b = CHR ''X'') then (16, cs) else (10, str)
      | _ \<Rightarrow> (10, str))"

definition parseInt :: "string option \<Rightarrow> int option" where
  "parseInt q =
     (case q of
        None \<Rightarrow> None
      | Some str \<Rightarrow>
          (case strip_sign (dropWhile is_whitespace str) of
            (sgn_, rest) \<Rightarrow>
              (case strip_prefix rest of
                (radix, digits) \<Rightarrow>
                  map_option (\<lambda>n. sgn_ * int n) (parse_digits radix digits None))))"

text \<open>\<open>parseInt(...) || d\<close>: NaN and 0 are falsy and give the default.\<close>

definition or_default :: "int option \<Rightarrow> int \<Rightarrow> int" where
  "or_default v d = (case v of None \<Rightarrow> d | Some n \<Rightarrow> if n = 0 then d else n)"

text \<open>\<open>countQuery\<close>: \<open>SELECT COUNT(*) as total FROM transactions WHERE accountId = ?\<close>.\<close>

definition countQuery :: "store \<Rightarrow> string \<Rightarrow> nat" where
  "countQuery s i = length (filter (\<lambda>t. accountId t = i) (transactions s))"

text \<open>
  \<open>getTransactionsQuery\<close>: the account's rows by date, then id, both descending, cut by
  LIMIT and OFFSET (both are non-negative wherever the handler runs the query).
\<close>

definition ordered_transactions :: "store \<Rightarrow> string \<Rightarrow> transaction list" where
  "ordered_transactions s i =
     rev (sort_key (\<lambda>t. (date t, txn_id t)) (filter (\<lambda>t. accountId t = i) (transactions s)))"

definition getTransactionsQuery :: "store \<Rightarrow> string \<Rightarrow> int \<Rightarrow> int \<Rightarrow> transaction list" where
  "getTransactionsQuery s i limit' offset' = take (nat limit') (drop (nat offset') (ordered_transactions s i))"

text \<open>
  The handler, from the two query parameters \<open>req.query.page\<close> and \<open>req.query.limit\<close>. As
  in the source, both \<open>page\<close> and \<open>limit\<close> are parsed from \<open>req.query.page\<close>.
\<close>

definition get_account_transactions ::
  "env \<Rightarrow> store \<Rightarrow> string \<Rightarrow> string option \<Rightarrow> string option \<Rightarrow> response" where
  "get_account_transactions e s i query_page query_limit =
     (let page = or_default (parseInt query_page) 1;
          limit' = or_default (parseInt query_page) 10;
          offset = (page - 1) * limit'
      in
        (if page < 1 \<or> limit' < 1 \<or> 100 < limit'
         then respond 400 (TypedError
           ''Invalid pagination parameters. Page must be >= 1, limit must be between 1 and 100.'')
         else if get_err e then respond 500 (TypedError ''Failed to count transactions.'')
         else
           (let total = countQuery s i;
                pages = \<lceil>rat_of_nat total / rat_of_int limit'\<rceil>
            in
              (if all_err e then respond 500 (TypedError ''Failed to fetch transactions.'')
               else respond 200
                 (TransactionsJson (getTransactionsQuery s i limit' offset)
                    \<lparr>currentPage = page, limit = limit', totalTransactions = total,
                     totalPages = pages, hasNextPage = (page < pages),
                     hasPreviousPage = (1 < page)\<rparr>)))))"

section \<open>The API as one step function\<close>

datatype api_request =
    GetAccounts
  | GetAccount string
  | GetTransactions string "string option" "string option"
  | PostTransaction string request_body

fun is_read :: "api_request \<Rightarrow> bool" where
  "is_read (PostTransaction i b) = False"
| "is_read _ = True"

fun handle_request ::
  "(string \<Rightarrow> number) \<Rightarrow> store \<Rightarrow> env \<times> api_request \<Rightarrow> response list \<times> store" where
  "handle_request s2n s (e, GetAccounts) = ([get_accounts e s], s)"
| "handle_request s2n s (e, GetAccount i) = ([get_account e s i], s)"
| "handle_request s2n s (e, GetTransactions i p l) = ([get_account_transactions e s i p l], s)"
| "handle_request s2n s (e, PostTransaction i b) = post_account_transactions s2n e s i b"

text \<open>
  A request is answered once. After the middleware has sent its 400 the handler still runs,
  and its own call of \<open>res.json\<close> raises (the headers are already sent) inside the driver's
  callback, where nothing catches it: the process ends and the in-memory database is gone.
  \<open>serve\<close> runs a sequence of requests; \<open>None\<close> says that the process has ended.
\<close>

definition answered_once :: "response list \<Rightarrow> bool" where
  "answered_once rs = (length rs \<le> 1)"

fun serve ::
  "(string \<Rightarrow> number) \<Rightarrow> store \<Rightarrow> (env \<times> api_request) list \<Rightarrow> store option" where
  "serve s2n s [] = Some s"
| "serve s2n s (r # rs) =
     (if answered_once (fst (handle_request s2n s r))
      then serve s2n (snd (handle_request s2n s r)) rs
      else None)"

section \<open>Notions the claims speak of\<close>

text \<open>A request during which the driver reports no error, at time \<open>now\<close>.\<close>

definition no_faults :: "nat \<Rightarrow> env" where
  "no_faults now =
     \<lparr>CURRENT_TIMESTAMP = now, get_err = False, all_err = False, insert_err = False,
      update_err = False, err_message = []\<rparr>"

definition insufficient_funds :: response where
  "insufficient_funds = respond 400 (TypedError ''Insufficient funds for this transaction.'')"

definition balance_update_failed :: response where
  "balance_update_failed =
     respond 500 (TypedError ''Transaction created but failed to update balance.'')"

text \<open>The balance of an account as the handler reads it: \<open>Number(account.balance)\<close>.\<close>

definition balance_number :: "account \<Rightarrow> number" where
  "balance_number a = column_number (balance a)"

text \<open>
  A transaction on account \<open>i\<close> is successfully committed when the client receives the
  201 response. \<open>committed_posts\<close> collects, along a sequence of requests served one after
  the other, the bodies of the committed transactions on \<open>i\<close>, in the order of their
  commits.
\<close>

definition created :: "response list \<Rightarrow> bool" where
  "created rs = (case delivered rs of None \<Rightarrow> False | Some r \<Rightarrow> status r = 201)"

fun posts_to :: "string \<Rightarrow> api_request \<Rightarrow> request_body list" where
  "posts_to i (PostTransaction j b) = (if j = i then [b] else [])"
| "posts_to i _ = []"

fun committed_posts ::
  "(string \<Rightarrow> number) \<Rightarrow> store \<Rightarrow> string \<Rightarrow> (env \<times> api_request) list \<Rightarrow> request_body list" where
  "committed_posts s2n s i [] = []"
| "committed_posts s2n s i (r # rs) =
     (if answered_once (fst (handle_request s2n s r))
      then (if created (fst (handle_request s2n s r)) then posts_to i (snd r) else [])
             @ committed_posts s2n (snd (handle_request s2n s r)) i rs
      else [])"

text \<open>
  The transactions of the data model: a type among the three and an amount that is a
  finite number. \<open>amount_sum\<close> adds up the amounts of a list of bodies, exactly.
\<close>

definition is_deposit :: "request_body \<Rightarrow> bool" where
  "is_deposit b = (type_field b = JString ''DEPOSIT'')"

definition is_withdrawal_or_transfer :: "request_body \<Rightarrow> bool" where
  "is_withdrawal_or_transfer b =
     (type_field b = JString ''WITHDRAWAL'' \<or> type_field b = JString ''TRANSFER'')"

definition amount_number :: "(string \<Rightarrow> number) \<Rightarrow> request_body \<Rightarrow> rat" where
  "amount_number s2n b = (case ToNumber s2n (amount_field b) of Num r \<Rightarrow> r | _ \<Rightarrow> 0)"

definition is_transaction :: "(string \<Rightarrow> number) \<Rightarrow> request_body \<Rightarrow> bool" where
  "is_transaction s2n b =
     ((is_deposit b \<or> is_withdrawal_or_transfer b)
      \<and> (case ToNumber s2n (amount_field b) of Num r \<Rightarrow> True | _ \<Rightarrow> False))"

definition amount_sum :: "(string \<Rightarrow> number) \<Rightarrow> request_body list \<Rightarrow> rat" where
  "amount_sum s2n bs = sum_list (map (amount_number s2n) bs)"

text \<open>
  The exact running totals of a ledger: from the balance \<open>x\<close>, the totals after each
  transaction of the list, a deposit counting with its amount and any other transaction
  with the negated amount.
\<close>

definition signed_amount :: "(string \<Rightarrow> number) \<Rightarrow> request_body \<Rightarrow> rat" where
  "signed_amount s2n b = (if is_deposit b then amount_number s2n b else - amount_number s2n b)"

fun running_totals :: "(string \<Rightarrow> number) \<Rightarrow> rat \<Rightarrow> request_body list \<Rightarrow> rat list" where
  "running_totals s2n x [] = []"
| "running_totals s2n x (b # bs) =
     (x + signed_amount s2n b) # running_totals s2n (x + signed_amount s2n b) bs"

text \<open>
  The balance of account \<open>i\<close> after a sequence of requests: \<open>None\<close> when the process has
  ended or the account does not exist.
\<close>

definition final_balance ::
  "(string \<Rightarrow> number) \<Rightarrow> store \<Rightarrow> string \<Rightarrow> (env \<times> api_request) list \<Rightarrow> number option" where
  "final_balance s2n s i reqs =
     (case serve s2n s reqs of
        None \<Rightarrow> None
      | Some s' \<Rightarrow> map_option balance_number (select_account s' i))"

text \<open>
  A store in which account "1" has exactly fifteen transactions, with ids 1 to 15 and
  increasing dates: in the display order (date, then id, descending) the transaction
  ranked k is the one with id 16 - k.
\<close>

definition sample_row :: "nat \<Rightarrow> transaction" where
  "sample_row n =
     \<lparr>txn_id = n, txn_type = JString ''DEPOSIT'', amount = JNumber 10,
      description = JString ''payroll'', accountId = ''1'', date = 1000 + n\<rparr>"

definition fifteen_transactions :: store where
  "fifteen_transactions =
     \<lparr>accounts = sampleAccounts ''2024-01-01T00:00:00.000Z'',
      transactions = map sample_row [1, 2, 3, 4, 5, 6, 7, 8, 9, 10, 11, 12, 13, 14, 15],
      sqlite_sequence = 15\<rparr>"

text \<open>
  A sequence of requests on the seeded store: a deposit, a withdrawal refused for
  insufficient funds, a read, a withdrawal, a deposit on the other account, and a
  transfer.
\<close>

definition ledger_example :: "(env \<times> api_request) list" where
  "ledger_example =
     [(no_faults 1, PostTransaction ''1''
         \<lparr>type_field = JString ''DEPOSIT'', amount_field = JNumber 500,
          description_field = JString ''payroll''\<rparr>),
      (no_faults 2, PostTransaction ''1''
         \<lparr>type_field = JString ''WITHDRAWAL'', amount_field = JNumber 6000,
          description_field = JString ''car''\<rparr>),
      (no_faults 3, GetAccount ''1''),
      (no_faults 4, PostTransaction ''1''
         \<lparr>type_field = JString ''WITHDRAWAL'', amount_field = JNumber 200,
          description_field = JString ''cash''\<rparr>),
      (no_faults 5, PostTransaction ''2''
         \<lparr>type_field = JString ''DEPOSIT'', amount_field = JNumber 70,
          description_field = JString ''gift''\<rparr>),
      (no_faults 6, PostTransaction ''1''
         \<lparr>type_field = JString ''TRANSFER'', amount_field = JNumber 50,
          description_field = JString ''rent''\<rparr>)]"

text \<open>
  Two further runs on the seeded store. In the first a body whose type is \<open>null\<close> is
  posted. In the second the amounts are the doubles written 0.1 and 0.2 (0.2 is twice 0.1
  exactly): two deposits of 0.1 and a withdrawal of 0.2.
\<close>

definition untyped_example :: "(env \<times> api_request) list" where
  "untyped_example =
     [(no_faults 1, PostTransaction ''1''
         \<lparr>type_field = JNull, amount_field = JNumber 10,
          description_field = JString ''fee''\<rparr>)]"

definition tenth :: rat where
  "tenth = 3602879701896397 / 36028797018963968"

definition rounding_example :: "(env \<times> api_request) list" where
  "rounding_example =
     [(no_faults 1, PostTransaction ''1''
         \<lparr>type_field = JString ''DEPOSIT'', amount_field = JNumber tenth,
          description_field = JString ''a''\<rparr>),
      (no_faults 2, PostTransaction ''1''
         \<lparr>type_field = JString ''DEPOSIT'', amount_field = JNumber tenth,
          description_field = JString ''b''\<rparr>),
      (no_faults 3, PostTransaction ''1''
         \<lparr>type_field = JString ''WITHDRAWAL'', amount_field = JNumber (2 * tenth),
          description_field = JString ''c''\<rparr>)]"

section \<open>Facts about rounding\<close>

text \<open>
  \<open>floor_log2\<close> finds the binade of a positive rational; a rational within half a unit of
  an integer rounds to it; hence \<open>fl\<close> leaves every \<open>m * 2^e\<close> with \<open>\<bar>m\<bar> < 2^53\<close> in range as it
  is (in particular every integer below \<open>2^53\<close> in magnitude), rounds any other rational to
  the double certified by \<open>fl_round\<close>, and never makes a non-negative number negative.
\<close>

declare bit_length.simps [simp del]

lemma pow2_pos: "0 < pow2 e"
  by (simp add: pow2_def)

lemma pow2_add: "pow2 (a + b) = pow2 a * pow2 b"
  by (simp add: pow2_def power_int_add)

lemma pow2_nat: "pow2 (int n) = 2 ^ n"
  by (simp add: pow2_def)

lemma pow2_strict_mono: "a < b \<Longrightarrow> pow2 a < pow2 b"
  by (simp add: pow2_def power_int_strict_increasing)

lemma pow2_mono: "a \<le> b \<Longrightarrow> pow2 a \<le> pow2 b"
  by (simp add: pow2_def power_int_increasing)

lemma pow2_less_iff: "pow2 a < pow2 b \<longleftrightarrow> a < b"
  using pow2_strict_mono [of a b] pow2_mono [of b a] by (auto simp: not_less [symmetric])

lemma pow2_le_iff: "pow2 a \<le> pow2 b \<longleftrightarrow> a \<le> b"
  using pow2_strict_mono [of b a] pow2_mono [of a b] by (auto simp: not_le [symmetric])

lemma bit_length_pos: "0 < n \<Longrightarrow> 0 < bit_length n"
  by (subst bit_length.simps) simp

lemma bit_length_bounds:
  "0 < n \<Longrightarrow> 2 ^ (bit_length n - 1) \<le> n \<and> n < 2 ^ bit_length n"
proof (induction n rule: bit_length.induct)
  case (1 n)
  have bl: "bit_length n = Suc (bit_length (n div 2))"
    using "1.prems" by (subst bit_length.simps) simp
  show ?case
  proof (cases "n div 2 = 0")
    case True
    with "1.prems" have "n = 1" by (auto simp: div_eq_0_iff)
    then show ?thesis
      by (simp add: bl) (simp add: bit_length.simps)
  next
    case False
    then have h: "0 < n div 2" by simp
    from "1.IH" [OF _ h] "1.prems"
    have IH: "2 ^ (bit_length (n div 2) - 1) \<le> n div 2" "n div 2 < 2 ^ bit_length (n div 2)"
      by simp_all
    from bit_length_pos [OF h] obtain c where c: "bit_length (n div 2) = Suc c"
      by (cases "bit_length (n div 2)") simp_all
    from IH c have "2 * 2 ^ c \<le> 2 * (n div 2)" by simp
    then have lo: "2 ^ (bit_length n - 1) \<le> n" by (simp add: bl c)
    from IH(2) have "Suc (n div 2) \<le> 2 ^ bit_length (n div 2)" by simp
    then have "2 * Suc (n div 2) \<le> 2 * 2 ^ bit_length (n div 2)" by simp
    then have hi: "n < 2 ^ bit_length n" by (simp add: bl)
    from lo hi show ?thesis by simp
  qed
qed


lemma floor_nat_bounds:
  fixes y :: rat
  assumes "1 \<le> y"
  shows "pow2 (int (bit_length (nat \<lfloor>y\<rfloor>)) - 1) \<le> y"
    and "y < pow2 (int (bit_length (nat \<lfloor>y\<rfloor>)))"
proof -
  let ?n = "nat \<lfloor>y\<rfloor>"
  from assms have f1: "1 \<le> \<lfloor>y\<rfloor>" by simp
  then have npos: "0 < ?n" by simp
  note b = bit_length_bounds [OF npos]
  from bit_length_pos [OF npos] obtain c where c: "bit_length ?n = Suc c"
    by (cases "bit_length ?n") simp_all
  from b c have "(2::nat) ^ c \<le> ?n" by simp
  then have "int (2 ^ c) \<le> int ?n" by (simp only: of_nat_le_iff)
  then have "(2::int) ^ c \<le> \<lfloor>y\<rfloor>" using f1 by simp
  then have "rat_of_int (2 ^ c) \<le> rat_of_int \<lfloor>y\<rfloor>" by (simp only: of_int_le_iff)
  also have "\<dots> \<le> y" by (rule of_int_floor_le)
  finally have "2 ^ c \<le> y" by simp
  then show "pow2 (int (bit_length ?n) - 1) \<le> y"
    using pow2_nat [of c] by (simp add: c)
  from b have "int ?n < int (2 ^ bit_length ?n)" by (simp only: of_nat_less_iff)
  then have "\<lfloor>y\<rfloor> < 2 ^ bit_length ?n" using f1 by simp
  then have "\<lfloor>y\<rfloor> + 1 \<le> 2 ^ bit_length ?n" by simp
  then have "rat_of_int (\<lfloor>y\<rfloor> + 1) \<le> rat_of_int (2 ^ bit_length ?n)"
    by (simp only: of_int_le_iff)
  moreover have "y < rat_of_int (\<lfloor>y\<rfloor> + 1)" by simp linarith
  ultimately have "y < 2 ^ bit_length ?n" by simp
  then show "y < pow2 (int (bit_length ?n))" by (simp add: pow2_nat)
qed

lemma floor_log2_bounds:
  assumes "0 < x"
  shows "pow2 (floor_log2 x) \<le> x \<and> x < pow2 (floor_log2 x + 1)"
proof (cases "1 \<le> x")
  case True
  from floor_nat_bounds [OF True] True show ?thesis
    by (simp add: floor_log2_def)
next
  case False
  let ?k = "int (bit_length (nat \<lfloor>1 / x\<rfloor>)) - 1"
  from False assms have y1: "1 \<le> 1 / x" by simp
  note b = floor_nat_bounds [OF y1]
  from b(1) assms have up: "x \<le> pow2 (- ?k)"
  proof -
    have "pow2 ?k * x \<le> 1" using b(1) assms by (simp add: pos_le_divide_eq)
    moreover have "pow2 (- ?k) * pow2 ?k = 1" using pow2_add [of "- ?k" ?k] by (simp add: pow2_def)
    ultimately have "pow2 (- ?k) * (pow2 ?k * x) \<le> pow2 (- ?k) * 1"
      using pow2_pos [of "- ?k"] by (intro mult_left_mono) simp_all
    then show ?thesis using \<open>pow2 (- ?k) * pow2 ?k = 1\<close>
      by (simp add: mult.assoc [symmetric])
  qed
  from b(2) assms have lo: "pow2 (- ?k - 1) < x"
  proof -
    have "1 < pow2 (?k + 1) * x" using b(2) assms by (simp add: pos_divide_less_eq)
    moreover have e: "pow2 (- ?k - 1) * pow2 (?k + 1) = 1"
      using pow2_add [of "- ?k - 1" "?k + 1"] by (simp add: pow2_def)
    ultimately have "pow2 (- ?k - 1) * 1 < pow2 (- ?k - 1) * (pow2 (?k + 1) * x)"
      using pow2_pos [of "- ?k - 1"] by (intro mult_strict_left_mono) simp_all
    then show ?thesis using e by (simp add: mult.assoc [symmetric])
  qed
  show ?thesis
  proof (cases "pow2 (- ?k) \<le> x")
    case True
    with up have "x = pow2 (- ?k)" by simp
    moreover have "pow2 (- ?k) < pow2 (- ?k + 1)" by (rule pow2_strict_mono) simp
    ultimately show ?thesis using False True by (simp add: floor_log2_def Let_def)
  next
    case nle: False
    then have "x < pow2 (- ?k)" by simp
    with lo show ?thesis using False nle by (simp add: floor_log2_def Let_def)
  qed
qed

lemma floor_log2_unique:
  assumes "0 < x" and "pow2 k \<le> x" and "x < pow2 (k + 1)"
  shows "floor_log2 x = k"
proof -
  from floor_log2_bounds [OF assms(1)]
  have a: "pow2 (floor_log2 x) \<le> x" and b: "x < pow2 (floor_log2 x + 1)" by simp_all
  from assms(2) b have "pow2 k < pow2 (floor_log2 x + 1)" by simp
  then have "k < floor_log2 x + 1" by (simp add: pow2_less_iff)
  moreover from a assms(3) have "pow2 (floor_log2 x) < pow2 (k + 1)" by simp
  then have "floor_log2 x < k + 1" by (simp add: pow2_less_iff)
  ultimately show ?thesis by simp
qed

lemma round_half_even_near:
  assumes "\<bar>y - of_int m\<bar> < 1 / 2"
  shows "round_half_even y = m"
proof (cases "of_int m \<le> y")
  case True
  with assms have "y < of_int m + 1 / 2" by simp
  with True have f: "\<lfloor>y\<rfloor> = m" by (intro floor_unique) simp_all
  with assms True show ?thesis by (simp add: round_half_even_def Let_def)
next
  case False
  with assms have lo: "of_int m - 1 / 2 < y" and hi: "y < of_int m" by simp_all
  then have f: "\<lfloor>y\<rfloor> = m - 1" by (intro floor_unique) simp_all
  with lo hi show ?thesis by (simp add: round_half_even_def Let_def)
qed

lemma round_half_even_of_int: "round_half_even (of_int m) = m"
  by (rule round_half_even_near) simp

lemma round_half_even_nonneg: "0 \<le> y \<Longrightarrow> 0 \<le> round_half_even y"
  by (simp add: round_half_even_def Let_def)


lemma pow2_53: "pow2 53 = 2 ^ 53" and pow2_0: "pow2 0 = 1"
  by (simp_all add: pow2_def)

lemma fl_unfold:
  assumes "x \<noteq> 0" and "max (floor_log2 \<bar>x\<bar> - 52) (- 1074) = e"
    and "round_half_even (x / pow2 e) = m"
    and "\<bar>rat_of_int m * pow2 e\<bar> < 2 ^ 1024"
  shows "fl x = Num (of_int m * pow2 e)"
proof -
  have "fl x = (if 2 ^ 1024 \<le> \<bar>rat_of_int m * pow2 e\<bar>
                then (if 0 < x then PInf else NInf) else Num (of_int m * pow2 e))"
    unfolding fl_def Let_def assms(2) assms(3) using assms(1) by (simp only: if_False)
  moreover from assms(4) have "\<not> 2 ^ 1024 \<le> \<bar>rat_of_int m * pow2 e\<bar>"
    by (simp only: not_le)
  ultimately show ?thesis by (simp only: if_False)
qed

lemma fl_round:
  assumes "x \<noteq> 0" and "pow2 k \<le> \<bar>x\<bar>" and "\<bar>x\<bar> < pow2 (k + 1)"
    and "e = max (k - 52) (- 1074)"
    and "\<bar>x / pow2 e - of_int m\<bar> < 1 / 2"
    and "\<bar>of_int m * pow2 e\<bar> < 2 ^ 1024"
  shows "fl x = Num (of_int m * pow2 e)"
proof -
  from assms(1) have "0 < \<bar>x\<bar>" by simp
  from floor_log2_unique [OF this assms(2,3)] have k: "floor_log2 \<bar>x\<bar> = k" .
  from k assms(4) have e: "max (floor_log2 \<bar>x\<bar> - 52) (- 1074) = e" by simp
  from round_half_even_near [OF assms(5)] have r: "round_half_even (x / pow2 e) = m" .
  from fl_unfold [OF assms(1) e r assms(6)] show ?thesis .
qed

lemma fl_exact:
  assumes "x = of_int m * pow2 e" and "\<bar>m\<bar> < 2 ^ 53" and "- 1074 \<le> e"
    and "\<bar>x\<bar> < 2 ^ 1024"
  shows "fl x = Num x"
proof (cases "x = 0")
  case True
  then show ?thesis by (simp add: fl_def)
next
  case False
  define k where "k = floor_log2 \<bar>x\<bar>"
  define E where "E = max (k - 52) (- 1074)"
  define M where "M = m * 2 ^ nat (e - E)"
  from False have xpos: "0 < \<bar>x\<bar>" by simp
  from floor_log2_bounds [OF xpos] have lo: "pow2 k \<le> \<bar>x\<bar>" by (simp add: k_def)
  have "\<bar>x\<bar> = rat_of_int \<bar>m\<bar> * pow2 e"
    using assms(1) pow2_pos [of e] by (simp add: abs_mult)
  also have "\<dots> < 2 ^ 53 * pow2 e"
  proof -
    from assms(2) have "rat_of_int \<bar>m\<bar> < rat_of_int (2 ^ 53)" by (simp only: of_int_less_iff)
    then show ?thesis using pow2_pos [of e] by simp
  qed
  also have "\<dots> = pow2 (53 + e)" by (simp add: pow2_add pow2_53)
  finally have "pow2 k < pow2 (53 + e)" using lo by simp
  then have "k < 53 + e" by (simp add: pow2_less_iff)
  with assms(3) have le: "E \<le> e" by (simp add: E_def)
  have sp: "pow2 e = pow2 (e - E) * pow2 E"
    using pow2_add [of "e - E" E] by simp
  have p: "pow2 (e - E) = 2 ^ nat (e - E)"
    using le pow2_nat [of "nat (e - E)"] by simp
  have xM: "x = rat_of_int M * pow2 E"
    by (simp add: assms(1) M_def sp p)
  have ne: "pow2 E \<noteq> 0" using pow2_pos [of E] by simp
  have "x / pow2 E = rat_of_int M" using ne by (simp add: xM)
  then have r: "round_half_even (x / pow2 E) = M"
    by (simp only: round_half_even_of_int)
  have e: "max (floor_log2 \<bar>x\<bar> - 52) (- 1074) = E" by (simp add: E_def k_def)
  from assms(4) have b: "\<bar>rat_of_int M * pow2 E\<bar> < 2 ^ 1024" by (simp only: xM [symmetric])
  from fl_unfold [OF False e r b] show ?thesis by (simp only: xM [symmetric])
qed

lemma fl_of_int: "\<bar>n\<bar> < 2 ^ 53 \<Longrightarrow> fl (of_int n) = Num (of_int n)"
proof (rule fl_exact [where m = n and e = 0])
  assume a: "\<bar>n\<bar> < 2 ^ 53"
  show "rat_of_int n = rat_of_int n * pow2 0" by (simp add: pow2_0)
  show "\<bar>n\<bar> < 2 ^ 53" by (rule a)
  show "- 1074 \<le> (0::int)" by simp
  from a have "rat_of_int \<bar>n\<bar> < rat_of_int (2 ^ 53)" by (simp only: of_int_less_iff)
  also have "\<dots> < 2 ^ 1024" by simp
  finally show "\<bar>rat_of_int n\<bar> < 2 ^ 1024" by simp
qed

lemma fl_numeral: "numeral w < (2::int) ^ 53 \<Longrightarrow> fl (numeral w) = Num (numeral w)"
  using fl_of_int [of "numeral w"] by simp

lemma fl_neg_numeral: "numeral w < (2::int) ^ 53 \<Longrightarrow> fl (- numeral w) = Num (- numeral w)"
  using fl_of_int [of "- numeral w"] by simp

lemma fl_zero: "fl 0 = Num 0"
  by (simp add: fl_def)

lemma fl_nonneg:
  assumes "0 \<le> x"
  shows "fl x \<noteq> NInf" and "fl x = Num r \<Longrightarrow> 0 \<le> r"
proof -
  let ?e = "max (floor_log2 \<bar>x\<bar> - 52) (- 1074)"
  have "0 \<le> x / pow2 ?e" using assms pow2_pos [of ?e] by simp
  from round_half_even_nonneg [OF this]
  have "0 \<le> rat_of_int (round_half_even (x / pow2 ?e)) * pow2 ?e"
    using pow2_pos [of ?e] by simp
  then show "fl x \<noteq> NInf" and "fl x = Num r \<Longrightarrow> 0 \<le> r"
    using assms by (auto simp: fl_def Let_def split: if_splits)
qed

section \<open>Basic facts about the model\<close>

lemma validateCreateTransaction_next: "snd (validateCreateTransaction s2n b) = True"
  by (simp add: validateCreateTransaction_def)

lemma post_account_transactions_handler:
  "post_account_transactions s2n e s i b =
     (case_option [] (\<lambda>x. [x]) (fst (validateCreateTransaction s2n b))
        @ [fst (create_transaction s2n e s i b)],
      snd (create_transaction s2n e s i b))"
  by (simp add: post_account_transactions_def validateCreateTransaction_def split: prod.splits)

lemma reject_condition_amount_zero:
  "reject_condition s2n b \<Longrightarrow>
     ToNumber s2n (amount_field b) = Num 0 \<and> type_field b \<noteq> JString ''DEPOSIT''"
  by (cases "amount_field b"; cases "type_field b") (auto simp: reject_condition_def)

lemma reject_condition_newBalance:
  "reject_condition s2n b \<Longrightarrow>
     newBalance s2n bal (type_field b) (amount_field b) = num_sub (column_number bal) (Num 0)"
  using reject_condition_amount_zero [of s2n b]
  by (simp add: newBalance_def)

lemma newBalance_finite:
  assumes "balance_number acct = Num old" and "ToNumber s2n (amount_field b) = Num a"
  shows "is_deposit b \<Longrightarrow>
           newBalance s2n (balance acct) (type_field b) (amount_field b) = fl (old + a)"
    and "is_withdrawal_or_transfer b \<Longrightarrow>
           newBalance s2n (balance acct) (type_field b) (amount_field b) = fl (old - a)"
  using assms
  by (auto simp: newBalance_def balance_number_def is_deposit_def is_withdrawal_or_transfer_def)

lemma find_map_acct_id:
  assumes "\<And>a. acct_id (f a) = acct_id a"
  shows "find (\<lambda>a. acct_id a = j) (map f xs) = map_option f (find (\<lambda>a. acct_id a = j) xs)"
  by (induction xs) (simp_all add: assms)

lemma select_account_insert:
  "transactionsInsertQuery e s ty am de i = Some s1 \<Longrightarrow> select_account s1 j = select_account s j"
  by (auto simp: transactionsInsertQuery_def select_account_def split: if_splits)

lemma select_account_update:
  "updateBalanceQuery e s nb i = Some s2 \<Longrightarrow>
     select_account s2 j =
       map_option (\<lambda>a. if acct_id a = i then a\<lparr>balance := bind_number nb\<rparr> else a)
         (select_account s j)"
  by (auto simp: updateBalanceQuery_def select_account_def find_map_acct_id split: if_splits)

lemma select_account_id: "select_account s i = Some acct \<Longrightarrow> acct_id acct = i"
  by (auto simp: select_account_def find_Some_iff)

lemma create_transaction_201:
  assumes "status (fst (create_transaction s2n e s i b)) = 201"
  shows "\<exists>acct. select_account s i = Some acct
      \<and> fst (create_transaction s2n e s i b) =
          respond 201 (CreatedJson (type_field b) (amount_field b)
            (newBalance s2n (balance acct) (type_field b) (amount_field b)))
      \<and> select_account (snd (create_transaction s2n e s i b)) i =
          Some (acct\<lparr>balance :=
            bind_number (newBalance s2n (balance acct) (type_field b) (amount_field b))\<rparr>)
      \<and> transactions (snd (create_transaction s2n e s i b)) =
          transactions s @
            [\<lparr>txn_id = Suc (sqlite_sequence s), txn_type = type_field b,
              amount = amount_field b, description = description_field b, accountId = i,
              date = CURRENT_TIMESTAMP e\<rparr>]"
proof (cases "select_account s i")
  case None
  with assms show ?thesis
    by (simp add: create_transaction_def respond_def split: if_splits)
next
  case (Some acct)
  let ?nb = "newBalance s2n (balance acct) (type_field b) (amount_field b)"
  from assms Some obtain s1 s2 where
    ins: "transactionsInsertQuery e s (type_field b) (amount_field b) (description_field b) i = Some s1"
    and upd: "updateBalanceQuery e s1 ?nb i = Some s2"
    and res: "create_transaction s2n e s i b =
        (respond 201 (CreatedJson (type_field b) (amount_field b) ?nb), s2)"
    by (auto simp: create_transaction_def respond_def Let_def split: if_splits option.splits)
  have "select_account s2 i = Some (acct\<lparr>balance := bind_number ?nb\<rparr>)"
    using select_account_update [OF upd, of i] select_account_insert [OF ins, of i] Some
      select_account_id [OF Some]
    by simp
  moreover have "transactions s2 = transactions s @
            [\<lparr>txn_id = Suc (sqlite_sequence s), txn_type = type_field b,
              amount = amount_field b, description = description_field b, accountId = i,
              date = CURRENT_TIMESTAMP e\<rparr>]"
    using ins upd
    by (auto simp: transactionsInsertQuery_def updateBalanceQuery_def split: if_splits)
  ultimately show ?thesis using Some res by simp
qed

lemma created_route:
  assumes "created (fst (post_account_transactions s2n e s i b))"
  shows "\<not> reject_condition s2n b"
    and "fst (post_account_transactions s2n e s i b) = [fst (create_transaction s2n e s i b)]"
    and "status (fst (create_transaction s2n e s i b)) = 201"
  using assms
  by (auto simp: created_def delivered_def post_account_transactions_handler
      validateCreateTransaction_def respond_def split: if_splits)

text \<open>
  The definitions that evaluate a request on a concrete store; sums and differences that
  are integers below \<open>2^53\<close> are exact.
\<close>

lemmas run_defs =
  post_account_transactions_def validateCreateTransaction_def reject_condition_def
  create_transaction_def select_account_def newBalance_def transactionsInsertQuery_def
  updateBalanceQuery_def no_faults_def respond_def created_def delivered_def
  answered_once_def initializeDatabase_def sampleAccounts_def get_account_def Let_def
  fl_numeral fl_neg_numeral fl_zero

section \<open>C10: the middleware passes every request on\<close>

text \<open>
  C10. \<open>validateCreateTransaction\<close> calls \<open>next()\<close> for every request, also after it has
  sent its 400 response, so the route always runs the transaction-creation handler: the
  handler's response follows the middleware's in the list of responses, and the store the
  route leaves is the handler's. A body with \<open>type\<close> and \<open>description\<close> absent and amount 0
  is one the middleware answers with 400 (and still passes on): posted to the unknown
  account "99", it draws the middleware's 400 and then the handler's 404. For a body with
  no field at all the amount is \<open>undefined\<close>, \<open>undefined <= 0\<close> is false, the reject
  condition is false and the middleware sends nothing.
\<close>

theorem C10_middleware_always_calls_next:
  "snd (validateCreateTransaction s2n b) = True
   \<and> post_account_transactions s2n e s i b =
       (case_option [] (\<lambda>x. [x]) (fst (validateCreateTransaction s2n b))
          @ [fst (create_transaction s2n e s i b)],
        snd (create_transaction s2n e s i b))
   \<and> validateCreateTransaction s2n
         \<lparr>type_field = JUndefined, amount_field = JNumber 0, description_field = JUndefined\<rparr>
       = (Some (respond 400 (BadRequest ''Bad request'' ''Incomplete transaction details.'')),
          True)
   \<and> post_account_transactions s2n (no_faults 7) (initializeDatabase ''2024'') ''99''
         \<lparr>type_field = JUndefined, amount_field = JNumber 0, description_field = JUndefined\<rparr>
       = ([respond 400 (BadRequest ''Bad request'' ''Incomplete transaction details.''),
           respond 404 (TypedError ''Account not found.'')],
          initializeDatabase ''2024'')
   \<and> reject_condition s2n
         \<lparr>type_field = JUndefined, amount_field = JUndefined, description_field = JUndefined\<rparr>
       = False
   \<and> validateCreateTransaction s2n
         \<lparr>type_field = JUndefined, amount_field = JUndefined, description_field = JUndefined\<rparr>
       = (None, True)"
proof -
  have "reject_condition s2n
          \<lparr>type_field = JUndefined, amount_field = JNumber 0, description_field = JUndefined\<rparr>"
    by (simp add: reject_condition_def)
  moreover have "\<not> reject_condition s2n
          \<lparr>type_field = JUndefined, amount_field = JUndefined, description_field = JUndefined\<rparr>"
    by (simp add: reject_condition_def)
  moreover have "post_account_transactions s2n (no_faults 7) (initializeDatabase ''2024'') ''99''
         \<lparr>type_field = JUndefined, amount_field = JNumber 0, description_field = JUndefined\<rparr>
       = ([respond 400 (BadRequest ''Bad request'' ''Incomplete transaction details.''),
           respond 404 (TypedError ''Account not found.'')],
          initializeDatabase ''2024'')"
    by (simp add: run_defs)
  ultimately show ?thesis
    using validateCreateTransaction_next [of s2n b]
      post_account_transactions_handler [of s2n e s i b]
    by (simp add: validateCreateTransaction_def)
qed

section \<open>C1: a request that would overdraw the account\<close>

lemma create_transaction_insufficient:
  assumes "\<not> get_err e" and "select_account s i = Some acct"
    and "newBalance s2n (balance acct) (type_field b) (amount_field b) = nb"
    and "(nb = Num r \<and> r < 0) \<or> nb = NInf"
  shows "create_transaction s2n e s i b = (insufficient_funds, s)"
  using assms by (auto simp: create_transaction_def insufficient_funds_def)

lemma num_sub_zero_not_negative:
  assumes "case bal of None \<Rightarrow> True
           | Some n \<Rightarrow> (case n of Num x \<Rightarrow> 0 \<le> x | PInf \<Rightarrow> True | _ \<Rightarrow> False)"
  shows "num_sub (column_number bal) (Num 0) \<noteq> NInf"
    and "num_sub (column_number bal) (Num 0) = Num r \<Longrightarrow> 0 \<le> r"
proof -
  show "num_sub (column_number bal) (Num 0) \<noteq> NInf"
  proof (cases bal)
    case None
    then show ?thesis by (simp add: fl_zero)
  next
    case (Some n)
    with assms show ?thesis by (cases n) (simp_all add: fl_nonneg)
  qed
  show "0 \<le> r" if "num_sub (column_number bal) (Num 0) = Num r"
  proof (cases bal)
    case None
    with that show ?thesis by (simp add: fl_zero)
  next
    case (Some n)
    with assms that show ?thesis by (cases n) (auto dest: fl_nonneg(2) [rotated])
  qed
qed

text \<open>
  C1. On an existing account, when the balance the handler computes (the current balance
  plus the amount for DEPOSIT, minus the amount otherwise) is negative (a negative
  number, or minus infinity), the route leaves the store as it was (no transaction row,
  the balance unchanged) and the handler answers with the 400 "Insufficient funds"
  response. That response comes after the middleware's own 400 if the middleware rejected
  the body, so every response has status 400; the middleware cannot have rejected it
  unless the stored balance was already negative, so from a non-negative balance the
  insufficient-funds response is the only one.
\<close>

theorem C1_insufficient_funds_rejected:
  assumes "\<not> get_err e" and "select_account s i = Some acct"
    and "newBalance s2n (balance acct) (type_field b) (amount_field b) = nb"
    and "(nb = Num r \<and> r < 0) \<or> nb = NInf"
  shows "snd (post_account_transactions s2n e s i b) = s
       \<and> fst (post_account_transactions s2n e s i b) =
           case_option [] (\<lambda>x. [x]) (fst (validateCreateTransaction s2n b))
             @ [insufficient_funds]
       \<and> list_all (\<lambda>x. status x = 400) (fst (post_account_transactions s2n e s i b))
       \<and> ((case balance acct of None \<Rightarrow> True
            | Some n \<Rightarrow> (case n of Num x \<Rightarrow> 0 \<le> x | PInf \<Rightarrow> True | _ \<Rightarrow> False)) \<longrightarrow>
            fst (post_account_transactions s2n e s i b) = [insufficient_funds])"
proof -
  have h: "create_transaction s2n e s i b = (insufficient_funds, s)"
    using assms by (rule create_transaction_insufficient)
  have st: "status insufficient_funds = 400"
    by (simp add: insufficient_funds_def respond_def)
  have a: "snd (post_account_transactions s2n e s i b) = s"
    by (simp add: post_account_transactions_handler h)
  have b: "fst (post_account_transactions s2n e s i b) =
           case_option [] (\<lambda>x. [x]) (fst (validateCreateTransaction s2n b))
             @ [insufficient_funds]"
    by (simp add: post_account_transactions_handler h)
  have c: "list_all (\<lambda>x. status x = 400) (fst (post_account_transactions s2n e s i b))"
    by (simp add: b st validateCreateTransaction_def respond_def)
  have d: "fst (post_account_transactions s2n e s i b) = [insufficient_funds]"
    if nn: "case balance acct of None \<Rightarrow> True
            | Some n \<Rightarrow> (case n of Num x \<Rightarrow> 0 \<le> x | PInf \<Rightarrow> True | _ \<Rightarrow> False)"
  proof -
    have "\<not> reject_condition s2n b"
    proof
      assume rc: "reject_condition s2n b"
      from reject_condition_newBalance [OF rc, of "balance acct"] assms(3)
      have nb: "nb = num_sub (column_number (balance acct)) (Num 0)" by simp
      from num_sub_zero_not_negative [OF nn] nb assms(4)
      show False by auto
    qed
    then show ?thesis by (simp add: b validateCreateTransaction_def)
  qed
  from a b c d show ?thesis by blast
qed

text \<open>
  The scenario of the specification: account "1" holds 5000 and a WITHDRAWAL of 6000 is
  posted.
\<close>

theorem C1_insufficient_funds_rejected_witness:
  "post_account_transactions (\<lambda>_. NaN) (no_faults 7) (initializeDatabase ''2024'') ''1''
      \<lparr>type_field = JString ''WITHDRAWAL'', amount_field = JNumber 6000,
       description_field = JString ''rent''\<rparr>
    = ([insufficient_funds], initializeDatabase ''2024'')"
proof -
  let ?s = "initializeDatabase ''2024''"
  let ?b = "\<lparr>type_field = JString ''WITHDRAWAL'', amount_field = JNumber 6000,
       description_field = JString ''rent''\<rparr>"
  let ?a = "\<lparr>acct_id = ''1'', accountNumber = ''1001'', accountType = CHECKING,
       balance = Some (Num 5000), accountHolder = ''John Doe'', createdAt = ''2024''\<rparr>"
  have h1: "\<not> get_err (no_faults 7)" by (simp add: no_faults_def)
  have h2: "select_account ?s ''1'' = Some ?a"
    by (simp add: select_account_def initializeDatabase_def sampleAccounts_def)
  have h3: "newBalance (\<lambda>_. NaN) (balance ?a) (type_field ?b) (amount_field ?b) = Num (- 1000)"
    by (simp add: newBalance_def fl_neg_numeral)
  have h4: "(Num (- 1000) = Num (- 1000) \<and> (- 1000 :: rat) < 0) \<or> Num (- 1000) = NInf"
    by simp
  note w = C1_insufficient_funds_rejected [OF h1 h2 h3 h4]
  from w have "snd (post_account_transactions (\<lambda>_. NaN) (no_faults 7) ?s ''1'' ?b) = ?s"
    by blast
  moreover from w have "(case balance ?a of None \<Rightarrow> True
            | Some n \<Rightarrow> (case n of Num x \<Rightarrow> 0 \<le> x | PInf \<Rightarrow> True | _ \<Rightarrow> False)) \<longrightarrow>
      fst (post_account_transactions (\<lambda>_. NaN) (no_faults 7) ?s ''1'' ?b) = [insufficient_funds]"
    by blast
  then have "fst (post_account_transactions (\<lambda>_. NaN) (no_faults 7) ?s ''1'' ?b)
      = [insufficient_funds]"
    by simp
  ultimately show ?thesis by (simp add: prod_eq_iff)
qed

section \<open>C9: the insert and the update are separate writes\<close>

lemma create_transaction_update_fails:
  assumes "\<not> get_err e" and "select_account s i = Some acct"
    and "\<not> num_lt (newBalance s2n (balance acct) (type_field b) (amount_field b)) (Num 0)"
    and "transactionsInsertQuery e s (type_field b) (amount_field b) (description_field b) i
           = Some s1"
    and "updateBalanceQuery e s1 (newBalance s2n (balance acct) (type_field b) (amount_field b)) i
           = None"
  shows "create_transaction s2n e s i b = (balance_update_failed, s1)"
  using assms by (simp add: create_transaction_def balance_update_failed_def)

text \<open>
  C9. The handler first runs the INSERT and only then, from the INSERT's callback, the
  UPDATE. When the account exists, the computed balance is not negative, the INSERT
  succeeded and the UPDATE reports an error, the handler answers 500 ("Transaction created
  but failed to update balance."), which is the only response unless the middleware had
  rejected the body; the store left behind has the new transaction row appended and the
  accounts table, hence the balance, as before.
\<close>

theorem C9_insert_kept_when_update_fails:
  assumes "\<not> get_err e" and "select_account s i = Some acct"
    and "\<not> num_lt (newBalance s2n (balance acct) (type_field b) (amount_field b)) (Num 0)"
    and "transactionsInsertQuery e s (type_field b) (amount_field b) (description_field b) i
           = Some s1"
    and "updateBalanceQuery e s1 (newBalance s2n (balance acct) (type_field b) (amount_field b)) i
           = None"
  shows "fst (post_account_transactions s2n e s i b) =
           case_option [] (\<lambda>x. [x]) (fst (validateCreateTransaction s2n b))
             @ [balance_update_failed]
       \<and> status balance_update_failed = 500
       \<and> (reject_condition s2n b \<or>
            fst (post_account_transactions s2n e s i b) = [balance_update_failed])
       \<and> snd (post_account_transactions s2n e s i b) = s1
       \<and> transactions s1 = transactions s @
            [\<lparr>txn_id = Suc (sqlite_sequence s), txn_type = type_field b,
              amount = amount_field b, description = description_field b, accountId = i,
              date = CURRENT_TIMESTAMP e\<rparr>]
       \<and> accounts s1 = accounts s
       \<and> select_account s1 i = Some acct"
proof -
  have h: "create_transaction s2n e s i b = (balance_update_failed, s1)"
    using assms by (rule create_transaction_update_fails)
  have t: "transactions s1 = transactions s @
            [\<lparr>txn_id = Suc (sqlite_sequence s), txn_type = type_field b,
              amount = amount_field b, description = description_field b, accountId = i,
              date = CURRENT_TIMESTAMP e\<rparr>]"
    and a: "accounts s1 = accounts s"
    using assms(4) by (auto simp: transactionsInsertQuery_def split: if_splits)
  have sel: "select_account s1 i = Some acct"
    using select_account_insert [OF assms(4), of i] assms(2) by simp
  have st: "status balance_update_failed = 500"
    by (simp add: balance_update_failed_def respond_def)
  show ?thesis
    using t a sel st
    by (simp add: post_account_transactions_handler h validateCreateTransaction_def)
qed

text \<open>A DEPOSIT of 500 on account "1" of the seeded store, the UPDATE failing.\<close>

theorem C9_insert_kept_when_update_fails_witness:
  "post_account_transactions (\<lambda>_. NaN) ((no_faults 7)\<lparr>update_err := True\<rparr>)
      (initializeDatabase ''2024'') ''1''
      \<lparr>type_field = JString ''DEPOSIT'', amount_field = JNumber 500,
       description_field = JString ''payroll''\<rparr>
   = ([balance_update_failed],
      (initializeDatabase ''2024'')
        \<lparr>transactions :=
           [\<lparr>txn_id = 1, txn_type = JString ''DEPOSIT'', amount = JNumber 500,
             description = JString ''payroll'', accountId = ''1'', date = 7\<rparr>],
         sqlite_sequence := 1\<rparr>)"
proof -
  let ?e = "(no_faults 7)\<lparr>update_err := True\<rparr>"
  let ?s = "initializeDatabase ''2024''"
  let ?b = "\<lparr>type_field = JString ''DEPOSIT'', amount_field = JNumber 500,
       description_field = JString ''payroll''\<rparr>"
  let ?a = "\<lparr>acct_id = ''1'', accountNumber = ''1001'', accountType = CHECKING,
       balance = Some (Num 5000), accountHolder = ''John Doe'', createdAt = ''2024''\<rparr>"
  let ?s1 = "?s\<lparr>transactions :=
           [\<lparr>txn_id = 1, txn_type = JString ''DEPOSIT'', amount = JNumber 500,
             description = JString ''payroll'', accountId = ''1'', date = 7\<rparr>],
         sqlite_sequence := 1\<rparr>"
  have h1: "\<not> get_err ?e" by (simp add: no_faults_def)
  have h2: "select_account ?s ''1'' = Some ?a"
    by (simp add: select_account_def initializeDatabase_def sampleAccounts_def)
  have h3: "\<not> num_lt (newBalance (\<lambda>_. NaN) (balance ?a) (type_field ?b) (amount_field ?b)) (Num 0)"
    by (simp add: newBalance_def fl_numeral)
  have h4: "transactionsInsertQuery ?e ?s (type_field ?b) (amount_field ?b) (description_field ?b) ''1''
      = Some ?s1"
    by (simp add: transactionsInsertQuery_def no_faults_def initializeDatabase_def)
  have h5: "updateBalanceQuery ?e ?s1
      (newBalance (\<lambda>_. NaN) (balance ?a) (type_field ?b) (amount_field ?b)) ''1'' = None"
    by (simp add: updateBalanceQuery_def no_faults_def)
  have nr: "\<not> reject_condition (\<lambda>_. NaN) ?b" by (simp add: reject_condition_def)
  note w = C9_insert_kept_when_update_fails [OF h1 h2 h3 h4 h5]
  from w nr have "fst (post_account_transactions (\<lambda>_. NaN) ?e ?s ''1'' ?b) = [balance_update_failed]"
    by blast
  moreover from w have "snd (post_account_transactions (\<lambda>_. NaN) ?e ?s ''1'' ?b) = ?s1"
    by blast
  ultimately show ?thesis by (simp add: prod_eq_iff)
qed

section \<open>C5: bodies that violate the input constraints\<close>

text \<open>
  C5. Bodies that violate the input constraints are not stopped before the store. On the
  seeded store, a WITHDRAWAL of -100 is answered 201 and raises the balance of account
  "1" from 5000 to 5100; a DEPOSIT with an empty description is answered 201; and a body
  of type "BONUS" passes the middleware, the handler reads the account and runs the
  INSERT, and the answer is the 500 of the failed INSERT, not a validation error.
\<close>

theorem C5_invalid_bodies_reach_the_store:
  "post_account_transactions (\<lambda>_. NaN) (no_faults 7) (initializeDatabase ''2024'') ''1''
      \<lparr>type_field = JString ''WITHDRAWAL'', amount_field = JNumber (- 100),
       description_field = JString ''refund''\<rparr>
     = ([respond 201 (CreatedJson (JString ''WITHDRAWAL'') (JNumber (- 100)) (Num 5100))],
        \<lparr>accounts =
           [\<lparr>acct_id = ''1'', accountNumber = ''1001'', accountType = CHECKING,
             balance = Some (Num 5100), accountHolder = ''John Doe'', createdAt = ''2024''\<rparr>,
            \<lparr>acct_id = ''2'', accountNumber = ''1002'', accountType = SAVINGS,
             balance = Some (Num 10000), accountHolder = ''Jane Smith'', createdAt = ''2024''\<rparr>],
         transactions =
           [\<lparr>txn_id = 1, txn_type = JString ''WITHDRAWAL'', amount = JNumber (- 100),
             description = JString ''refund'', accountId = ''1'', date = 7\<rparr>],
         sqlite_sequence = 1\<rparr>)
   \<and> fst (post_account_transactions (\<lambda>_. NaN) (no_faults 7) (initializeDatabase ''2024'') ''1''
      \<lparr>type_field = JString ''DEPOSIT'', amount_field = JNumber 10,
       description_field = JString []\<rparr>)
     = [respond 201 (CreatedJson (JString ''DEPOSIT'') (JNumber 10) (Num 5010))]
   \<and> fst (post_account_transactions (\<lambda>_. NaN) (no_faults 7) (initializeDatabase ''2024'') ''1''
      \<lparr>type_field = JString ''BONUS'', amount_field = JNumber 100,
       description_field = JString ''gift''\<rparr>)
     = [respond 500 (TypedError ''Failed to create transaction.'')]"
  by (simp add: run_defs)

section \<open>C7: the pagination envelope\<close>

lemma ceiling_div_bounds:
  fixes n :: nat and l :: int
  assumes "1 \<le> l"
  shows "(\<lceil>rat_of_nat n / rat_of_int l\<rceil> - 1) * l < int n"
    and "int n \<le> \<lceil>rat_of_nat n / rat_of_int l\<rceil> * l"
proof -
  let ?x = "rat_of_nat n / rat_of_int l"
  have lpos: "0 < rat_of_int l" using assms by simp
  have "rat_of_int (\<lceil>?x\<rceil> - 1) < ?x" using ceiling_correct [of ?x] by simp
  then have "rat_of_int (\<lceil>?x\<rceil> - 1) * rat_of_int l < rat_of_nat n"
    using lpos by (simp add: pos_less_divide_eq)
  then have "rat_of_int ((\<lceil>?x\<rceil> - 1) * l) < rat_of_int (int n)" by simp
  then show "(\<lceil>?x\<rceil> - 1) * l < int n" by (simp only: of_int_less_iff)
  have "?x \<le> rat_of_int \<lceil>?x\<rceil>" by (rule le_of_int_ceiling)
  then have "?x * rat_of_int l \<le> rat_of_int \<lceil>?x\<rceil> * rat_of_int l"
    using lpos by (intro mult_right_mono) simp_all
  moreover have "?x * rat_of_int l = rat_of_nat n" using lpos by simp
  ultimately have "rat_of_nat n \<le> rat_of_int \<lceil>?x\<rceil> * rat_of_int l" by simp
  then have "rat_of_int (int n) \<le> rat_of_int (\<lceil>?x\<rceil> * l)" by simp
  then show "int n \<le> \<lceil>?x\<rceil> * l" by (simp only: of_int_le_iff)
qed

text \<open>
  C7. Every 200 response of GET /api/accounts/:id/transactions carries a pagination
  envelope in which \<open>totalTransactions\<close> is the number of transactions of the account,
  \<open>totalPages\<close> is the ceiling of \<open>totalTransactions / limit\<close> (the least number of pages of
  \<open>limit\<close> rows that hold them all), \<open>hasNextPage\<close> is \<open>currentPage < totalPages\<close> and
  \<open>hasPreviousPage\<close> is \<open>currentPage > 1\<close>; \<open>limit\<close> and \<open>currentPage\<close> are the envelope's own
  fields, and the rows are the page they describe.
\<close>

theorem C7_pagination_envelope:
  assumes "status (get_account_transactions e s i query_page query_limit) = 200"
  shows "\<exists>rows pg. json (get_account_transactions e s i query_page query_limit)
                     = TransactionsJson rows pg
      \<and> totalTransactions pg = countQuery s i
      \<and> totalPages pg = \<lceil>rat_of_nat (totalTransactions pg) / rat_of_int (limit pg)\<rceil>
      \<and> hasNextPage pg = (currentPage pg < totalPages pg)
      \<and> hasPreviousPage pg = (1 < currentPage pg)
      \<and> 1 \<le> limit pg
      \<and> (totalPages pg - 1) * limit pg < int (totalTransactions pg)
      \<and> int (totalTransactions pg) \<le> totalPages pg * limit pg
      \<and> rows = getTransactionsQuery s i (limit pg) ((currentPage pg - 1) * limit pg)"
proof -
  let ?page = "or_default (parseInt query_page) 1"
  let ?limit = "or_default (parseInt query_page) 10"
  let ?total = "countQuery s i"
  let ?pages = "\<lceil>rat_of_nat ?total / rat_of_int ?limit\<rceil>"
  let ?pg = "\<lparr>currentPage = ?page, limit = ?limit, totalTransactions = ?total,
              totalPages = ?pages, hasNextPage = (?page < ?pages),
              hasPreviousPage = (1 < ?page)\<rparr>"
  from assms have ok: "\<not> (?page < 1 \<or> ?limit < 1 \<or> 100 < ?limit)" "\<not> get_err e" "\<not> all_err e"
    by (auto simp: get_account_transactions_def respond_def Let_def split: if_splits)
  then have res: "get_account_transactions e s i query_page query_limit =
      respond 200 (TransactionsJson (getTransactionsQuery s i ?limit ((?page - 1) * ?limit)) ?pg)"
    by (simp add: get_account_transactions_def Let_def)
  from ok(1) have l1: "1 \<le> ?limit" by simp
  note cb = ceiling_div_bounds [OF l1, of ?total]
  show ?thesis
    using l1 cb by (simp add: res respond_def)
qed

text \<open>Page 3 of an account with fifteen transactions: five pages of three rows.\<close>

theorem C7_pagination_envelope_witness:
  "status (get_account_transactions (no_faults 0) fifteen_transactions ''1'' (Some ''3'') None) = 200
   \<and> (\<exists>rows pg. json (get_account_transactions (no_faults 0) fifteen_transactions ''1''
                        (Some ''3'') None) = TransactionsJson rows pg
        \<and> totalTransactions pg = 15 \<and> limit pg = 3 \<and> currentPage pg = 3
        \<and> totalPages pg = 5 \<and> hasNextPage pg = True \<and> hasPreviousPage pg = True)"
proof -
  let ?r = "get_account_transactions (no_faults 0) fifteen_transactions ''1'' (Some ''3'') None"
  have h: "status ?r = 200" by code_simp
  have c: "countQuery fifteen_transactions ''1'' = 15" by code_simp
  have j: "json ?r = TransactionsJson (map sample_row [9, 8, 7])
      \<lparr>currentPage = 3, limit = 3, totalTransactions = 15, totalPages = 5,
       hasNextPage = True, hasPreviousPage = True\<rparr>"
    by code_simp
  from C7_pagination_envelope [OF h] obtain rows pg where
    p: "json ?r = TransactionsJson rows pg" "totalTransactions pg = countQuery fifteen_transactions ''1''"
      "totalPages pg = \<lceil>rat_of_nat (totalTransactions pg) / rat_of_int (limit pg)\<rceil>"
      "hasNextPage pg = (currentPage pg < totalPages pg)"
      "hasPreviousPage pg = (1 < currentPage pg)"
    by blast
  from j p(1) have l: "limit pg = 3" "currentPage pg = 3" by auto
  from p(2) c have t: "totalTransactions pg = 15" by simp
  have "\<lceil>rat_of_nat 15 / rat_of_int 3\<rceil> = (5 :: int)" by simp
  with p(3) l t have tp: "totalPages pg = 5" by simp
  from p(4,5) l tp have "hasNextPage pg = True" "hasPreviousPage pg = True" by simp_all
  with h p(1) l t tp show ?thesis by blast
qed

section \<open>C3 and C4: the limit parameter is never read\<close>

text \<open>
  C3. With exactly fifteen transactions on account "1", the request
  \<open>?page=2&limit=10\<close> should return the transactions ranked 11 to 15 (ids 5 down to 1)
  with \<open>hasNextPage = false\<close>. The handler parses \<open>limit\<close> from \<open>req.query.page\<close>, so the
  limit is 2: it returns the two transactions ranked 3 and 4 (ids 13 and 12), reports 8
  pages and \<open>hasNextPage = true\<close>.
\<close>

theorem C3_page_two_of_fifteen:
  "get_account_transactions (no_faults 0) fifteen_transactions ''1'' (Some ''2'') (Some ''10'')
     = respond 200 (TransactionsJson [sample_row 13, sample_row 12]
         \<lparr>currentPage = 2, limit = 2, totalTransactions = 15, totalPages = 8,
          hasNextPage = True, hasPreviousPage = True\<rparr>)
   \<and> take 5 (drop 10 (ordered_transactions fifteen_transactions ''1''))
     = [sample_row 5, sample_row 4, sample_row 3, sample_row 2, sample_row 1]
   \<and> countQuery fifteen_transactions ''1'' = 15"
  by code_simp

text \<open>
  C4. The response does not depend on the \<open>limit\<close> query parameter at all. In particular
  \<open>?page=1&limit=1000\<close> and \<open>?limit=0\<close> are answered 200 where a validation error is due;
  \<open>?page=0\<close> is answered 200 as well, since \<open>parseInt("0") || 1\<close> is 1; and
  \<open>?page=101&limit=10\<close>, whose parameters are valid, is refused with 400.
\<close>

theorem C4_limit_parameter_ignored:
  "get_account_transactions e s i query_page query_limit
     = get_account_transactions e s i query_page query_limit'
   \<and> status (get_account_transactions (no_faults 0) fifteen_transactions ''1''
        (Some ''1'') (Some ''1000'')) = 200
   \<and> status (get_account_transactions (no_faults 0) fifteen_transactions ''1''
        None (Some ''0'')) = 200
   \<and> status (get_account_transactions (no_faults 0) fifteen_transactions ''1''
        (Some ''0'') (Some ''10'')) = 200
   \<and> status (get_account_transactions (no_faults 0) fifteen_transactions ''1''
        (Some ''101'') (Some ''10'')) = 400"
proof -
  have "get_account_transactions e s i query_page query_limit
     = get_account_transactions e s i query_page query_limit'"
    by (simp add: get_account_transactions_def)
  moreover have "status (get_account_transactions (no_faults 0) fifteen_transactions ''1''
        (Some ''1'') (Some ''1000'')) = 200"
    by code_simp
  moreover have "status (get_account_transactions (no_faults 0) fifteen_transactions ''1''
        None (Some ''0'')) = 200"
    by code_simp
  moreover have "status (get_account_transactions (no_faults 0) fifteen_transactions ''1''
        (Some ''0'') (Some ''10'')) = 200"
    by code_simp
  moreover have "status (get_account_transactions (no_faults 0) fifteen_transactions ''1''
        (Some ''101'') (Some ''10'')) = 400"
    by code_simp
  ultimately show ?thesis by blast
qed

section \<open>C6: what a successful creation does\<close>




section \<open>C8: reading an account twice\<close>

text \<open>
  C8. No GET route writes: after any sequence of read requests the process is up and the
  store is the one before, so GET /api/accounts/:id answers after them exactly what it
  answered before them (the driver behaving alike for both calls). With the empty
  sequence these are two calls in a row.
\<close>

theorem C8_get_account_idempotent:
  assumes "list_all (\<lambda>r. is_read (snd r)) reqs"
  shows "serve s2n s reqs = Some s
       \<and> map_option (\<lambda>s'. get_account e s' i) (serve s2n s reqs) = Some (get_account e s i)"
proof -
  from assms have "serve s2n s reqs = Some s"
  proof (induction reqs)
    case Nil
    then show ?case by simp
  next
    case (Cons r reqs)
    obtain e' q where r: "r = (e', q)" by (cases r)
    with Cons.prems have "is_read q" by simp
    then have "snd (handle_request s2n s r) = s"
      and "answered_once (fst (handle_request s2n s r))"
      using r by (cases q; simp add: answered_once_def)+
    with Cons show ?case by simp
  qed
  then show ?thesis by simp
qed

theorem C8_get_account_idempotent_witness:
  "map_option (\<lambda>s'. get_account (no_faults 9) s' ''1'')
     (serve (\<lambda>_. NaN) (initializeDatabase ''2024'')
        [(no_faults 1, GetAccount ''1''), (no_faults 2, GetAccounts),
         (no_faults 3, GetTransactions ''1'' (Some ''1'') None)])
   = Some (get_account (no_faults 9) (initializeDatabase ''2024'') ''1'')
   \<and> get_account (no_faults 9) (initializeDatabase ''2024'') ''1''
   = respond 200 (AccountJson
       \<lparr>acct_id = ''1'', accountNumber = ''1001'', accountType = CHECKING,
        balance = Some (Num 5000), accountHolder = ''John Doe'', createdAt = ''2024''\<rparr>)"
proof -
  let ?reqs = "[(no_faults 1, GetAccount ''1''), (no_faults 2, GetAccounts),
         (no_faults 3, GetTransactions ''1'' (Some ''1'') None)]"
  have h: "list_all (\<lambda>r. is_read (snd r)) ?reqs" by simp
  from C8_get_account_idempotent [OF h, of "\<lambda>_. NaN" "initializeDatabase ''2024''" "no_faults 9" "''1''"]
  have "map_option (\<lambda>s'. get_account (no_faults 9) s' ''1'')
          (serve (\<lambda>_. NaN) (initializeDatabase ''2024'') ?reqs)
      = Some (get_account (no_faults 9) (initializeDatabase ''2024'') ''1'')"
    by blast
  moreover have "get_account (no_faults 9) (initializeDatabase ''2024'') ''1''
      = respond 200 (AccountJson
       \<lparr>acct_id = ''1'', accountNumber = ''1001'', accountType = CHECKING,
        balance = Some (Num 5000), accountHolder = ''John Doe'', createdAt = ''2024''\<rparr>)"
    by (simp add: get_account_def no_faults_def select_account_def initializeDatabase_def
        sampleAccounts_def)
  ultimately show ?thesis by blast
qed

section \<open>C2: the balance along a sequence of requests\<close>

lemma create_transaction_select:
  assumes "select_account s i = Some acct"
  shows "((j \<noteq> i \<or> status (fst (create_transaction s2n e s j b)) \<noteq> 201)
          \<and> select_account (snd (create_transaction s2n e s j b)) i = Some acct)
       \<or> (j = i \<and> status (fst (create_transaction s2n e s j b)) = 201
           \<and> select_account (snd (create_transaction s2n e s j b)) i =
               Some (acct\<lparr>balance :=
                 bind_number (newBalance s2n (balance acct) (type_field b) (amount_field b))\<rparr>))"
proof (cases "status (fst (create_transaction s2n e s j b)) = 201")
  case True
  from create_transaction_201 [OF True] obtain a where
    a: "select_account s j = Some a"
    and u: "select_account (snd (create_transaction s2n e s j b)) j =
          Some (a\<lparr>balance := bind_number (newBalance s2n (balance a) (type_field b) (amount_field b))\<rparr>)"
    by blast
  show ?thesis
  proof (cases "j = i")
    case True
    with a u assms \<open>status _ = 201\<close> show ?thesis by simp
  next
    case False
    from \<open>status _ = 201\<close> a obtain s1 s2 where
      ins: "transactionsInsertQuery e s (type_field b) (amount_field b) (description_field b) j = Some s1"
      and upd: "updateBalanceQuery e s1 (newBalance s2n (balance a) (type_field b) (amount_field b)) j = Some s2"
      and res: "snd (create_transaction s2n e s j b) = s2"
      by (auto simp: create_transaction_def respond_def Let_def split: if_splits option.splits)
    have "select_account s2 i = Some acct"
      using select_account_update [OF upd, of i] select_account_insert [OF ins, of i] assms
        select_account_id [OF assms] False
      by simp
    with res False show ?thesis by simp
  qed
next
  case False
  have "select_account (snd (create_transaction s2n e s j b)) i = Some acct"
    using False assms
    by (auto simp: create_transaction_def respond_def Let_def select_account_insert
        split: if_splits option.splits)
  with False show ?thesis by simp
qed

lemma running_totals_append:
  "running_totals s2n x (as @ bs) =
     running_totals s2n x as
       @ running_totals s2n (x + sum_list (map (signed_amount s2n) as)) bs"
  by (induction as arbitrary: x) (simp_all add: add.assoc)

lemma signed_sum:
  "list_all (is_transaction s2n) cs \<Longrightarrow>
     sum_list (map (signed_amount s2n) cs) =
       amount_sum s2n (filter is_deposit cs)
         - amount_sum s2n (filter is_withdrawal_or_transfer cs)"
proof (induction cs)
  case Nil
  then show ?case by (simp add: amount_sum_def)
next
  case (Cons c cs)
  then have t: "is_deposit c \<or> is_withdrawal_or_transfer c" by (simp add: is_transaction_def)
  have x: "\<not> (is_deposit c \<and> is_withdrawal_or_transfer c)"
    by (auto simp: is_deposit_def is_withdrawal_or_transfer_def)
  from Cons t x show ?case
    by (auto simp: amount_sum_def signed_amount_def)
qed

lemma is_transaction_newBalance:
  assumes "is_transaction s2n b" and "balance_number acct = Num x"
    and "is_double (x + signed_amount s2n b)"
  shows "bind_number (newBalance s2n (balance acct) (type_field b) (amount_field b))
           = Some (Num (x + signed_amount s2n b))"
proof -
  from assms(1) obtain a where a: "ToNumber s2n (amount_field b) = Num a"
    by (auto simp: is_transaction_def split: number.splits)
  then have n: "amount_number s2n b = a" by (simp add: amount_number_def)
  show ?thesis
  proof (cases "is_deposit b")
    case True
    from newBalance_finite(1) [OF assms(2) a True] assms(3) True n show ?thesis
      by (simp add: is_double_def signed_amount_def)
  next
    case False
    with assms(1) have w: "is_withdrawal_or_transfer b" by (simp add: is_transaction_def)
    from newBalance_finite(2) [OF assms(2) a w] assms(3) False n show ?thesis
      by (simp add: is_double_def signed_amount_def)
  qed
qed

lemma balance_number_update: "balance_number (a\<lparr>balance := Some n\<rparr>) = n"
  by (simp add: balance_number_def)

lemma handle_request_balance:
  assumes sel: "select_account s i = Some acct"
    and bal: "balance_number acct = Num x"
    and once: "answered_once (fst (handle_request s2n s r))"
    and wf: "list_all (is_transaction s2n)
               (if created (fst (handle_request s2n s r)) then posts_to i (snd r) else [])"
    and ex: "list_all is_double (running_totals s2n x
               (if created (fst (handle_request s2n s r)) then posts_to i (snd r) else []))"
  shows "\<exists>acct'. select_account (snd (handle_request s2n s r)) i = Some acct'
           \<and> balance_number acct' = Num (x + sum_list (map (signed_amount s2n)
               (if created (fst (handle_request s2n s r)) then posts_to i (snd r) else [])))"
proof (cases r)
  case (Pair e req)
  show ?thesis
  proof (cases req)
    case (PostTransaction j b)
    let ?h = "create_transaction s2n e s j b"
    let ?nb = "newBalance s2n (balance acct) (type_field b) (amount_field b)"
    have snd_eq: "snd (handle_request s2n s r) = snd ?h"
      and fst_eq: "fst (handle_request s2n s r) =
          case_option [] (\<lambda>x. [x]) (fst (validateCreateTransaction s2n b)) @ [fst ?h]"
      using Pair PostTransaction by (simp_all add: post_account_transactions_handler)
    from create_transaction_select [OF sel, where j = j and b = b and e = e and ?s2n = s2n]
    consider (same) "j \<noteq> i \<or> status (fst ?h) \<noteq> 201"
        "select_account (snd ?h) i = Some acct"
      | (upd) "j = i" "status (fst ?h) = 201"
          "select_account (snd ?h) i = Some (acct\<lparr>balance := bind_number ?nb\<rparr>)"
      by blast
    then show ?thesis
    proof cases
      case same
      have "\<not> created (fst (handle_request s2n s r)) \<or> posts_to i (snd r) = []"
      proof (cases "j = i")
        case True
        with same(1) have "status (fst ?h) \<noteq> 201" by simp
        with created_route(3) [of s2n e s j b] have "\<not> created (fst (handle_request s2n s r))"
          using Pair PostTransaction by auto
        then show ?thesis by simp
      next
        case False
        then show ?thesis using Pair PostTransaction by simp
      qed
      then have "(if created (fst (handle_request s2n s r)) then posts_to i (snd r) else []) = []"
        by auto
      with same(2) bal show ?thesis by (simp add: snd_eq)
    next
      case upd
      have nr: "\<not> reject_condition s2n b"
      proof
        assume "reject_condition s2n b"
        then have "length (fst (handle_request s2n s r)) = 2"
          by (simp add: fst_eq validateCreateTransaction_def)
        with once show False by (simp add: answered_once_def)
      qed
      then have c: "created (fst (handle_request s2n s r))"
        using upd(2)
        by (simp add: fst_eq created_def delivered_def validateCreateTransaction_def)
      have p: "posts_to i (snd r) = [b]"
        using Pair PostTransaction upd(1) by simp
      from wf c p have t: "is_transaction s2n b" by simp
      from ex c p have d: "is_double (x + signed_amount s2n b)" by simp
      from is_transaction_newBalance [OF t bal d] upd(3) c p show ?thesis
        by (simp add: snd_eq balance_number_update)
    qed
  qed (use Pair sel bal in simp_all)
qed

lemma serve_balance:
  assumes "select_account s i = Some acct" and "balance_number acct = Num x"
    and "serve s2n s reqs = Some s'"
    and "list_all (is_transaction s2n) (committed_posts s2n s i reqs)"
    and "list_all is_double (running_totals s2n x (committed_posts s2n s i reqs))"
  shows "\<exists>acct'. select_account s' i = Some acct'
           \<and> balance_number acct' =
               Num (x + sum_list (map (signed_amount s2n) (committed_posts s2n s i reqs)))"
  using assms
proof (induction reqs arbitrary: s acct x)
  case Nil
  then show ?case by simp
next
  case (Cons r reqs)
  let ?c = "if created (fst (handle_request s2n s r)) then posts_to i (snd r) else []"
  let ?s1 = "snd (handle_request s2n s r)"
  let ?x1 = "x + sum_list (map (signed_amount s2n) ?c)"
  from Cons.prems(3) have once: "answered_once (fst (handle_request s2n s r))"
    and up: "serve s2n ?s1 reqs = Some s'"
    by (simp_all split: if_splits)
  from once have cp: "committed_posts s2n s i (r # reqs) = ?c @ committed_posts s2n ?s1 i reqs"
    by simp
  from Cons.prems(4) have wf1: "list_all (is_transaction s2n) ?c"
    and wf2: "list_all (is_transaction s2n) (committed_posts s2n ?s1 i reqs)"
    unfolding cp by simp_all
  from Cons.prems(5) have ex1: "list_all is_double (running_totals s2n x ?c)"
    and ex2: "list_all is_double (running_totals s2n ?x1 (committed_posts s2n ?s1 i reqs))"
    unfolding cp running_totals_append by simp_all
  from handle_request_balance [OF Cons.prems(1,2) once wf1 ex1] obtain a1 where
    a1: "select_account ?s1 i = Some a1" and b1: "balance_number a1 = Num ?x1"
    by blast
  from Cons.IH [OF a1 b1 up wf2 ex2] obtain a2 where
    a2: "select_account s' i = Some a2"
    and b2: "balance_number a2 =
        Num (?x1 + sum_list (map (signed_amount s2n) (committed_posts s2n ?s1 i reqs)))"
    by blast
  from a2 b2 show ?case unfolding cp by (simp add: add.assoc)
qed

lemma is_double_of_int: "\<bar>n\<bar> < 2 ^ 53 \<Longrightarrow> is_double (of_int n)"
  by (simp add: is_double_def fl_of_int)

text \<open>
  C2, as amended. Let account \<open>i\<close> exist with a finite balance, and let a finite sequence of
  requests be served without the process ending. If the committed transactions on \<open>i\<close>
  (those answered 201) are transactions of the data model (type DEPOSIT, WITHDRAWAL or
  TRANSFER, and a finite amount), and the running total after each of them is a double
  (as it is, by \<open>is_double_of_int\<close>, whenever the totals are integers below \<open>2^53\<close>), then the
  account still exists and its balance is the initial balance plus the sum of the amounts
  of the committed DEPOSITs minus the sum of the amounts of the committed WITHDRAWALs and
  TRANSFERs. Requests that are refused, that fail, or that address another account or
  only read do not count and do not change the balance.
\<close>

theorem C2_balance_when_typed_and_exact:
  assumes "select_account s i = Some acct" and "balance_number acct = Num b0"
    and "serve s2n s reqs = Some s'"
    and "list_all (is_transaction s2n) (committed_posts s2n s i reqs)"
    and "list_all is_double (running_totals s2n b0 (committed_posts s2n s i reqs))"
  shows "\<exists>acct'. select_account s' i = Some acct'
           \<and> balance_number acct' =
               Num (b0
                 + amount_sum s2n (filter is_deposit (committed_posts s2n s i reqs))
                 - amount_sum s2n
                     (filter is_withdrawal_or_transfer (committed_posts s2n s i reqs)))"
  using serve_balance [OF assms] signed_sum [OF assms(4)] by (simp add: add_diff_eq)

lemma ledger_example_committed:
  "committed_posts (\<lambda>_. NaN) (initializeDatabase ''2024'') ''1'' ledger_example =
     [\<lparr>type_field = JString ''DEPOSIT'', amount_field = JNumber 500,
          description_field = JString ''payroll''\<rparr>,
      \<lparr>type_field = JString ''WITHDRAWAL'', amount_field = JNumber 200,
          description_field = JString ''cash''\<rparr>,
      \<lparr>type_field = JString ''TRANSFER'', amount_field = JNumber 50,
          description_field = JString ''rent''\<rparr>]"
  by (simp add: ledger_example_def run_defs)

lemma ledger_example_served:
  "serve (\<lambda>_. NaN) (initializeDatabase ''2024'') ledger_example \<noteq> None"
  by (simp add: ledger_example_def run_defs)

text \<open>
  The run \<open>ledger_example\<close>: the committed transactions on account "1" are the deposit of
  500, the withdrawal of 200 and the transfer of 50, the running totals 5500, 5300 and
  5250 are doubles, and the balance ends at 5000 + 500 - (200 + 50).
\<close>

theorem C2_balance_when_typed_and_exact_witness:
  "list_all (is_transaction (\<lambda>_. NaN))
      (committed_posts (\<lambda>_. NaN) (initializeDatabase ''2024'') ''1'' ledger_example)
   \<and> running_totals (\<lambda>_. NaN) 5000
        (committed_posts (\<lambda>_. NaN) (initializeDatabase ''2024'') ''1'' ledger_example)
      = [5500, 5300, 5250]
   \<and> list_all is_double [5500, 5300, 5250]
   \<and> final_balance (\<lambda>_. NaN) (initializeDatabase ''2024'') ''1'' ledger_example
      = Some (Num (5000 + 500 - (200 + 50)))"
proof -
  let ?s = "initializeDatabase ''2024''"
  let ?a = "\<lparr>acct_id = ''1'', accountNumber = ''1001'', accountType = CHECKING,
       balance = Some (Num 5000), accountHolder = ''John Doe'', createdAt = ''2024''\<rparr>"
  let ?cs = "committed_posts (\<lambda>_. NaN) ?s ''1'' ledger_example"
  have h1: "select_account ?s ''1'' = Some ?a"
    by (simp add: select_account_def initializeDatabase_def sampleAccounts_def)
  have h2: "balance_number ?a = Num 5000" by (simp add: balance_number_def)
  from ledger_example_served obtain s' where
    h3: "serve (\<lambda>_. NaN) ?s ledger_example = Some s'" by blast
  have h4: "list_all (is_transaction (\<lambda>_. NaN)) ?cs"
    by (simp add: ledger_example_committed is_transaction_def is_deposit_def
        is_withdrawal_or_transfer_def)
  have rt: "running_totals (\<lambda>_. NaN) 5000 ?cs = [5500, 5300, 5250]"
    by (simp add: ledger_example_committed signed_amount_def amount_number_def is_deposit_def)
  have dbl: "list_all is_double [5500, 5300, 5250]"
    by (simp add: is_double_def fl_numeral)
  from dbl rt have h5: "list_all is_double (running_totals (\<lambda>_. NaN) 5000 ?cs)" by simp
  from C2_balance_when_typed_and_exact [OF h1 h2 h3 h4 h5] obtain acct' where
    "select_account s' ''1'' = Some acct'"
    "balance_number acct' = Num (5000 + amount_sum (\<lambda>_. NaN) (filter is_deposit ?cs)
        - amount_sum (\<lambda>_. NaN) (filter is_withdrawal_or_transfer ?cs))"
    by blast
  then have th: "final_balance (\<lambda>_. NaN) ?s ''1'' ledger_example
      = Some (Num (5000 + 500 - (200 + 50)))"
    by (simp add: final_balance_def h3 ledger_example_committed amount_sum_def
        amount_number_def is_deposit_def is_withdrawal_or_transfer_def)
  have ev: "final_balance (\<lambda>_. NaN) ?s ''1'' ledger_example = Some (Num 5250)"
    by (simp add: final_balance_def ledger_example_def balance_number_def run_defs)
  from h4 rt dbl th ev show ?thesis by blast
qed

text \<open>
  C2 as stated: after any sequence of committed transactions the balance is the initial
  balance plus the deposited amounts minus the withdrawn and transferred amounts. It
  fails on the seeded store in two ways. A body of type \<open>null\<close> and amount 10 is committed
  (answered 201), is neither a DEPOSIT nor a WITHDRAWAL nor a TRANSFER, and leaves account
  "1" at 4990, not 5000. And after two deposits of 0.1 and a withdrawal of 0.2, all
  committed, the sums of the claim cancel exactly to 5000, while the balance, rounded
  after each step, is 5000 + 2^-40.
\<close>

lemma rounding_steps:
  "fl (5000 + tenth) = Num (2748834045021389 / 549755813888)"
  "fl (2748834045021389 / 549755813888 + tenth) = Num (1374444510301389 / 274877906944)"
  "fl (1374444510301389 / 274877906944 - 2 * tenth) = Num (5497558138880001 / 1099511627776)"
proof -
  show "fl (5000 + tenth) = Num (2748834045021389 / 549755813888)"
    using fl_round [where x = "5000 + tenth" and k = 12 and e = "- 40"
        and m = 5497668090042778]
    by (simp add: tenth_def pow2_def)
  show "fl (2748834045021389 / 549755813888 + tenth) = Num (1374444510301389 / 274877906944)"
    using fl_round [where x = "2748834045021389 / 549755813888 + tenth" and k = 12
        and e = "- 40" and m = 5497778041205556]
    by (simp add: tenth_def pow2_def)
  show "fl (1374444510301389 / 274877906944 - 2 * tenth)
          = Num (5497558138880001 / 1099511627776)"
    using fl_round [where x = "1374444510301389 / 274877906944 - 2 * tenth" and k = 12
        and e = "- 40" and m = 5497558138880001]
    by (simp add: tenth_def pow2_def)
qed

lemma untyped_example_run:
  "committed_posts (\<lambda>_. NaN) (initializeDatabase ''2024'') ''1'' untyped_example
     = [\<lparr>type_field = JNull, amount_field = JNumber 10, description_field = JString ''fee''\<rparr>]"
  "final_balance (\<lambda>_. NaN) (initializeDatabase ''2024'') ''1'' untyped_example
     = Some (Num 4990)"
  by (simp_all add: untyped_example_def final_balance_def balance_number_def run_defs)

lemma rounding_example_run:
  "committed_posts (\<lambda>_. NaN) (initializeDatabase ''2024'') ''1'' rounding_example
     = [\<lparr>type_field = JString ''DEPOSIT'', amount_field = JNumber tenth,
          description_field = JString ''a''\<rparr>,
        \<lparr>type_field = JString ''DEPOSIT'', amount_field = JNumber tenth,
          description_field = JString ''b''\<rparr>,
        \<lparr>type_field = JString ''WITHDRAWAL'', amount_field = JNumber (2 * tenth),
          description_field = JString ''c''\<rparr>]"
  "final_balance (\<lambda>_. NaN) (initializeDatabase ''2024'') ''1'' rounding_example
     = Some (Num (5497558138880001 / 1099511627776))"
  by (simp_all add: rounding_example_def final_balance_def balance_number_def run_defs
      rounding_steps)

theorem C2_counterexample:
  "final_balance (\<lambda>_. NaN) (initializeDatabase ''2024'') ''1'' untyped_example
     = Some (Num 4990)
   \<and> Num 4990 \<noteq> Num (5000
        + amount_sum (\<lambda>_. NaN) (filter is_deposit
            (committed_posts (\<lambda>_. NaN) (initializeDatabase ''2024'') ''1'' untyped_example))
        - amount_sum (\<lambda>_. NaN) (filter is_withdrawal_or_transfer
            (committed_posts (\<lambda>_. NaN) (initializeDatabase ''2024'') ''1'' untyped_example)))
   \<and> length (committed_posts (\<lambda>_. NaN) (initializeDatabase ''2024'') ''1'' untyped_example) = 1
   \<and> final_balance (\<lambda>_. NaN) (initializeDatabase ''2024'') ''1'' rounding_example
     = Some (Num (5000 + 1 / 2 ^ 40))
   \<and> Num (5000 + 1 / 2 ^ 40) \<noteq> Num (5000
        + amount_sum (\<lambda>_. NaN) (filter is_deposit
            (committed_posts (\<lambda>_. NaN) (initializeDatabase ''2024'') ''1'' rounding_example))
        - amount_sum (\<lambda>_. NaN) (filter is_withdrawal_or_transfer
            (committed_posts (\<lambda>_. NaN) (initializeDatabase ''2024'') ''1'' rounding_example)))
   \<and> list_all (is_transaction (\<lambda>_. NaN))
        (committed_posts (\<lambda>_. NaN) (initializeDatabase ''2024'') ''1'' rounding_example)"
  by (simp add: untyped_example_run rounding_example_run amount_sum_def amount_number_def
      is_deposit_def is_withdrawal_or_transfer_def is_transaction_def)

end
